theory Spec2Isabelle
  imports Main
begin

section \<open>JavaScript primitives used by the calendar utilities\<close>

text \<open>
  Strings are lists of code units. The embedding uses \<^typ>\<open>string\<close>, whose
  characters carry eight bits, so it covers the strings whose code units lie below 256;
  on these, \<^verbatim>\<open>\D\<close>, \<^verbatim>\<open>trim\<close> and \<^verbatim>\<open>toLowerCase\<close> are exactly the functions below.
  A \<^verbatim>\<open>Date\<close> is its time value in milliseconds, an integer (an invalid date, whose
  time value is NaN, is outside the embedding).
\<close>

definition isDigit :: "char \<Rightarrow> bool" where
  \<comment> \<open>the class \<^verbatim>\<open>\d\<close>: the ten ASCII digits\<close>
  "isDigit c = (48 \<le> (of_char c :: nat) \<and> (of_char c :: nat) \<le> 57)"

definition stripNonDigits :: "string \<Rightarrow> string" where
  \<comment> \<open>\<^verbatim>\<open>s.replace(/\D/g, '')\<close>\<close>
  "stripNonDigits s = filter isDigit s"

definition slice :: "nat \<Rightarrow> nat \<Rightarrow> string \<Rightarrow> string" where
  \<comment> \<open>\<^verbatim>\<open>s.slice(a, b)\<close> for literal indices \<open>0 \<le> a \<le> b\<close>\<close>
  "slice a b s = take (b - a) (drop a s)"

definition sliceFrom :: "nat \<Rightarrow> string \<Rightarrow> string" where
  \<comment> \<open>\<^verbatim>\<open>s.slice(a)\<close> for a literal index \<open>0 \<le> a\<close>\<close>
  "sliceFrom a s = drop a s"

definition isWhiteSpace :: "char \<Rightarrow> bool" where
  \<comment> \<open>white space and line terminators below 256: TAB, LF, VT, FF, CR, SP, NBSP\<close>
  "isWhiteSpace c = ((of_char c :: nat) \<in> {9, 10, 11, 12, 13, 32, 160})"

definition trim :: "string \<Rightarrow> string" where
  "trim s = rev (dropWhile isWhiteSpace (rev (dropWhile isWhiteSpace s)))"

definition toLowerChar :: "char \<Rightarrow> char" where
  \<comment> \<open>A-Z and the Latin-1 capitals (all of 0xC0-0xDE but the sign 0xD7) move up by 32\<close>
  "toLowerChar c =
     (let n = (of_char c :: nat) in
      if (65 \<le> n \<and> n \<le> 90) \<or> (192 \<le> n \<and> n \<le> 222 \<and> n \<noteq> 215)
      then char_of (n + 32) else c)"

definition toLowerCase :: "string \<Rightarrow> string" where
  "toLowerCase s = map toLowerChar s"

fun array_some :: "('a \<Rightarrow> bool) \<Rightarrow> 'a list \<Rightarrow> bool" where
  \<comment> \<open>\<^verbatim>\<open>Array.prototype.some\<close>: left to right, stops at the first hit\<close>
  "array_some p [] = False"
| "array_some p (x # xs) = (if p x then True else array_some p xs)"


section \<open>Data model (lib/types.ts)\<close>

text \<open>
  Field names carry the record as a prefix where two interfaces share a name:
  \<open>vol_id\<close>, \<open>vol_name\<close>, \<open>vol_phone\<close> of a volunteer entry, \<open>role_id\<close> of a role,
  \<open>ev_id\<close> of an event. \<^verbatim>\<open>minVolunteers\<close> and the counts are integers. The field
  \<open>current\<close> of a coverage status holds what \<^verbatim>\<open>volunteers.length\<close> evaluates to, which is
  a number or, for an object without that property, \<^verbatim>\<open>undefined\<close> (\<open>None\<close>).

  \<open>roles\<close> holds the own properties of the plain object \<^verbatim>\<open>event.roles\<close>: role ids are
  opaque strings and are used as its keys.
\<close>

record VolunteerEntry =
  vol_id :: string
  vol_name :: string
  vol_phone :: string

record RoleDefinition =
  role_id :: string
  label :: string
  isDefault :: "bool option"
  minVolunteers :: int

record Event =
  ev_id :: string
  details :: string
  locked :: bool
  roles :: "string \<rightharpoonup> VolunteerEntry list"
  createdAt :: int

record CoverageStatus =
  current :: "int option"
  minimum :: int
  isMet :: bool

record DayState =
  events :: "Event list"

record NavigationBounds =
  minDate :: int
  maxDate :: int


section \<open>Calendar utilities (lib/utils-calendar.ts)\<close>

text \<open>
  The module imported as \<^verbatim>\<open>@/lib/utils-calendar\<close>; in the source tree it follows the
  type declarations in \<^verbatim>\<open>src/lib/types.ts\<close>.
\<close>

definition isBefore :: "int \<Rightarrow> int \<Rightarrow> bool" where
  \<comment> \<open>date-fns: the first date is before the second\<close>
  "isBefore d c = (d < c)"

definition isAfter :: "int \<Rightarrow> int \<Rightarrow> bool" where
  \<comment> \<open>date-fns: the first date is after the second\<close>
  "isAfter d c = (d > c)"

definition canNavigateToWeek :: "int \<Rightarrow> NavigationBounds \<Rightarrow> bool" where
  "canNavigateToWeek weekStart bounds =
     (\<not> isBefore weekStart (minDate bounds) \<and> \<not> isAfter weekStart (maxDate bounds))"

definition formatPhone :: "string \<Rightarrow> string" where
  "formatPhone phone =
     (let digits = stripNonDigits phone in
      if length digits = 10
      then ''('' @ slice 0 3 digits @ '') '' @ slice 3 6 digits @ ''-'' @ sliceFrom 6 digits
      else phone)"

definition cleanPhone :: "string \<Rightarrow> string" where
  "cleanPhone phone =
     (let digits = stripNonDigits phone in
      if length digits = 10 then digits else [])"

definition maskPhoneInput :: "string \<Rightarrow> string" where
  "maskPhoneInput v =
     (let digits = stripNonDigits v;
          formatted0 = [];
          formatted1 = (if length digits > 0 then ''('' @ slice 0 3 digits else formatted0);
          formatted2 = (if length digits \<ge> 3 then formatted1 @ '') '' @ slice 3 6 digits
                        else formatted1);
          formatted3 = (if length digits \<ge> 6 then formatted2 @ ''-'' @ slice 6 10 digits
                        else formatted2)
      in formatted3)"

definition isValidPhone :: "string \<Rightarrow> bool" where
  "isValidPhone phone = (let digits = stripNonDigits phone in length digits = 10)"

definition isDuplicateVolunteer :: "VolunteerEntry list \<Rightarrow> string \<Rightarrow> string \<Rightarrow> bool" where
  "isDuplicateVolunteer volunteers nm phone =
     (let cleanedPhone = cleanPhone phone in
      array_some
        (\<lambda>v. toLowerCase (trim (vol_name v)) = toLowerCase (trim nm) \<and>
              vol_phone v = cleanedPhone)
        volunteers)"

definition createEmptyEvent :: "string \<Rightarrow> int \<Rightarrow> Event" where
  \<comment> \<open>the results of \<^verbatim>\<open>generateId()\<close> and \<^verbatim>\<open>new Date()\<close> are passed in\<close>
  "createEmptyEvent newId now =
     \<lparr>ev_id = newId, details = [], locked = False, roles = Map.empty, createdAt = now\<rparr>"

definition createEmptyDayState :: DayState where
  "createEmptyDayState = \<lparr>events = []\<rparr>"

text \<open>
  \<^verbatim>\<open>event.roles\<close> is a plain object (\<^verbatim>\<open>{}\<close> and spreads of it), so a read
  \<^verbatim>\<open>event.roles[roleId]\<close> that finds no own property goes on to \<^verbatim>\<open>Object.prototype\<close>. The
  prototype is taken as the language defines it: eleven methods, each with the \<^verbatim>\<open>length\<close>
  the standard gives it, and the accessor \<^verbatim>\<open>__proto__\<close>, whose value is the prototype
  itself.
\<close>

datatype js_error = TypeError

datatype property_value =
    Volunteers "VolunteerEntry list"
  | InheritedFunction nat
  | ObjectPrototype

definition objectPrototypeProperty :: "string \<Rightarrow> property_value option" where
  \<comment> \<open>the properties every plain object inherits; \<open>None\<close> is \<^verbatim>\<open>undefined\<close>\<close>
  "objectPrototypeProperty k =
     (if k \<in> {''toString'', ''toLocaleString'', ''valueOf''} then Some (InheritedFunction 0)
      else if k \<in> {''constructor'', ''hasOwnProperty'', ''isPrototypeOf'',
                    ''propertyIsEnumerable'', ''__lookupGetter__'', ''__lookupSetter__''}
        then Some (InheritedFunction 1)
      else if k \<in> {''__defineGetter__'', ''__defineSetter__''} then Some (InheritedFunction 2)
      else if k = ''__proto__'' then Some ObjectPrototype
      else None)"

definition getProperty :: "(string \<rightharpoonup> VolunteerEntry list) \<Rightarrow> string \<Rightarrow> property_value option" where
  \<comment> \<open>\<^verbatim>\<open>obj[key]\<close>: an own property first, an inherited one otherwise\<close>
  "getProperty obj k =
     (case obj k of Some vs \<Rightarrow> Some (Volunteers vs) | None \<Rightarrow> objectPrototypeProperty k)"

definition volunteersOf :: "Event \<Rightarrow> string \<Rightarrow> property_value" where
  \<comment> \<open>the expression \<^verbatim>\<open>event.roles[roleId] || []\<close>: only \<^verbatim>\<open>undefined\<close> is replaced, an
      array (also an empty one), a function and an object are truthy\<close>
  "volunteersOf e roleId =
     (case getProperty (roles e) roleId of None \<Rightarrow> Volunteers [] | Some x \<Rightarrow> x)"

definition lengthOf :: "property_value \<Rightarrow> int option" where
  \<comment> \<open>\<^verbatim>\<open>x.length\<close>: of an array, of a function (its number of parameters), and
      \<^verbatim>\<open>undefined\<close> on \<^verbatim>\<open>Object.prototype\<close>\<close>
  "lengthOf x =
     (case x of
        Volunteers vs \<Rightarrow> Some (int (length vs))
      | InheritedFunction n \<Rightarrow> Some (int n)
      | ObjectPrototype \<Rightarrow> None)"

definition spreadArray :: "property_value \<Rightarrow> js_error + VolunteerEntry list" where
  \<comment> \<open>the spread \<^verbatim>\<open>[...x]\<close>: a function and \<^verbatim>\<open>Object.prototype\<close> are not iterable\<close>
  "spreadArray x =
     (case x of
        Volunteers vs \<Rightarrow> Inr vs
      | InheritedFunction n \<Rightarrow> Inl TypeError
      | ObjectPrototype \<Rightarrow> Inl TypeError)"

definition filterArray :: "(VolunteerEntry \<Rightarrow> bool) \<Rightarrow> property_value \<Rightarrow> js_error + VolunteerEntry list" where
  \<comment> \<open>the call \<^verbatim>\<open>x.filter(p)\<close>: a function and \<^verbatim>\<open>Object.prototype\<close> have no method
      \<^verbatim>\<open>filter\<close>\<close>
  "filterArray p x =
     (case x of
        Volunteers vs \<Rightarrow> Inr (filter p vs)
      | InheritedFunction n \<Rightarrow> Inl TypeError
      | ObjectPrototype \<Rightarrow> Inl TypeError)"

fun array_map :: "('a \<Rightarrow> js_error + 'b) \<Rightarrow> 'a list \<Rightarrow> js_error + 'b list" where
  \<comment> \<open>\<^verbatim>\<open>Array.prototype.map\<close> with a callback that may throw: left to right, the first
      exception ends the call\<close>
  "array_map f [] = Inr []"
| "array_map f (x # xs) =
     (case f x of
        Inl err \<Rightarrow> Inl err
      | Inr y \<Rightarrow> (case array_map f xs of Inl err \<Rightarrow> Inl err | Inr ys \<Rightarrow> Inr (y # ys)))"

definition entryOrEmpty :: "Event \<Rightarrow> string \<Rightarrow> VolunteerEntry list" where
  \<comment> \<open>the volunteers an event lists for a role: its own entry, none without one\<close>
  "entryOrEmpty e roleId = (case roles e roleId of None \<Rightarrow> [] | Some vs \<Rightarrow> vs)"

definition getCoverageStatus :: "Event \<Rightarrow> RoleDefinition \<Rightarrow> CoverageStatus" where
  \<comment> \<open>\<^verbatim>\<open>current >= minimum\<close> is false when \<^verbatim>\<open>current\<close> is \<^verbatim>\<open>undefined\<close>\<close>
  "getCoverageStatus event role =
     (let volunteers = volunteersOf event (role_id role);
          cur = lengthOf volunteers;
          mn = minVolunteers role;
          met = (case cur of None \<Rightarrow> False | Some c \<Rightarrow> c \<ge> mn)
      in \<lparr>current = cur, minimum = mn, isMet = met\<rparr>)"


section \<open>View model (components/CalendarGrid.tsx)\<close>

text \<open>
  The state cells of \<^verbatim>\<open>CalendarGrid\<close> that its event handlers read or write. Each
  handler is one state transition; a functional updater \<^verbatim>\<open>setDaysData((prev) => ...)\<close>
  receives the current \<^verbatim>\<open>daysData\<close> as \<^verbatim>\<open>prev\<close>. The values of
  \<^verbatim>\<open>generateId()\<close> and \<^verbatim>\<open>new Date()\<close> are arguments. The keys of \<^verbatim>\<open>daysData\<close> are
  ISO dates (\<^verbatim>\<open>yyyy-MM-dd\<close>, as \<^verbatim>\<open>toISODate\<close> formats them) or the empty string the
  two date cells start with, so a day is read from the map of its own properties.
\<close>

record GridState =
  daysData :: "string \<rightharpoonup> DayState"
  selectedEvent :: "Event option"
  selectedEventDate :: string
  addEventDate :: string
  showUnlockConfirm :: bool

definition handleEventClick :: "string \<Rightarrow> Event \<Rightarrow> GridState \<Rightarrow> GridState" where
  "handleEventClick date event s = s\<lparr>selectedEvent := Some event, selectedEventDate := date\<rparr>"

definition handleSaveNewEvent :: "string \<Rightarrow> string \<Rightarrow> int \<Rightarrow> GridState \<Rightarrow> GridState" where
  "handleSaveNewEvent dets newId now s =
     (let newEvent = (createEmptyEvent newId now)\<lparr>details := dets, locked := True\<rparr>;
          prev = daysData s;
          dayState = (case prev (addEventDate s) of None \<Rightarrow> createEmptyDayState | Some d \<Rightarrow> d)
      in s\<lparr>daysData :=
             prev(addEventDate s \<mapsto> dayState\<lparr>events := events dayState @ [newEvent]\<rparr>)\<rparr>)"

definition handleUpdateEvent :: "string \<Rightarrow> string \<Rightarrow> GridState \<Rightarrow> GridState" where
  "handleUpdateEvent eventId dets s =
     (let prev = daysData s;
          days' =
            (case prev (selectedEventDate s) of
               None \<Rightarrow> prev
             | Some dayState \<Rightarrow>
                 prev(selectedEventDate s \<mapsto>
                   dayState\<lparr>events :=
                     map (\<lambda>e. if ev_id e = eventId then e\<lparr>details := dets\<rparr> else e)
                       (events dayState)\<rparr>));
          sel' =
            (case selectedEvent s of
               None \<Rightarrow> None
             | Some se \<Rightarrow> if ev_id se = eventId then Some (se\<lparr>details := dets\<rparr>) else Some se)
      in s\<lparr>daysData := days', selectedEvent := sel'\<rparr>)"

definition handleToggleLock :: "string \<Rightarrow> GridState \<Rightarrow> GridState" where
  "handleToggleLock eventId s =
     (case daysData s (selectedEventDate s) of
        None \<Rightarrow> s
      | Some dayState \<Rightarrow>
          (let updatedEvents =
                 map (\<lambda>e. if ev_id e = eventId then e\<lparr>locked := \<not> locked e\<rparr> else e)
                   (events dayState);
               updatedEvent = find (\<lambda>e. ev_id e = eventId) updatedEvents
           in s\<lparr>daysData :=
                  (daysData s)(selectedEventDate s \<mapsto> dayState\<lparr>events := updatedEvents\<rparr>),
                selectedEvent :=
                  (case updatedEvent of None \<Rightarrow> selectedEvent s | Some u \<Rightarrow> Some u)\<rparr>))"

definition handleConfirmUnlock :: "GridState \<Rightarrow> GridState" where
  "handleConfirmUnlock s =
     (case selectedEvent s of None \<Rightarrow> s | Some se \<Rightarrow> handleToggleLock (ev_id se) s)"

definition handleDeleteEvent :: "GridState \<Rightarrow> GridState" where
  "handleDeleteEvent s =
     (case selectedEvent s of
        None \<Rightarrow> s
      | Some se \<Rightarrow>
          (let prev = daysData s;
               days' =
                 (case prev (selectedEventDate s) of
                    None \<Rightarrow> prev
                  | Some dayState \<Rightarrow>
                      prev(selectedEventDate s \<mapsto>
                        dayState\<lparr>events :=
                          filter (\<lambda>e. ev_id e \<noteq> ev_id se) (events dayState)\<rparr>))
           in s\<lparr>daysData := days', selectedEvent := None\<rparr>))"

text \<open>
  The two volunteer handlers read \<^verbatim>\<open>e.roles[roleId] || []\<close> inside the callback of
  \<^verbatim>\<open>events.map\<close> and use the value as an array. Where it is not one the callback throws
  a \<^verbatim>\<open>TypeError\<close>, the updater does not return, and no new state is set: the result is
  \<open>Inl TypeError\<close>. The computed key \<^verbatim>\<open>[roleId]\<close> always writes an own property.
\<close>

definition handleAddVolunteer ::
  "string \<Rightarrow> string \<Rightarrow> VolunteerEntry \<Rightarrow> GridState \<Rightarrow> js_error + GridState" where
  "handleAddVolunteer eventId roleId volunteer s =
     (case daysData s (selectedEventDate s) of
        None \<Rightarrow> Inr s
      | Some dayState \<Rightarrow>
          (case array_map
                  (\<lambda>e. if ev_id e = eventId
                       then (case spreadArray (volunteersOf e roleId) of
                               Inl err \<Rightarrow> Inl err
                             | Inr vs \<Rightarrow> Inr (e\<lparr>roles := (roles e)(roleId \<mapsto> vs @ [volunteer])\<rparr>))
                       else Inr e)
                  (events dayState) of
             Inl err \<Rightarrow> Inl err
           | Inr updatedEvents \<Rightarrow>
               (let updatedEvent = find (\<lambda>e. ev_id e = eventId) updatedEvents
                in Inr (s\<lparr>daysData :=
                            (daysData s)(selectedEventDate s \<mapsto>
                               dayState\<lparr>events := updatedEvents\<rparr>),
                          selectedEvent :=
                            (case updatedEvent of
                               None \<Rightarrow> selectedEvent s
                             | Some u \<Rightarrow> Some u)\<rparr>))))"

definition handleRemoveVolunteer ::
  "string \<Rightarrow> string \<Rightarrow> string \<Rightarrow> GridState \<Rightarrow> js_error + GridState" where
  "handleRemoveVolunteer eventId roleId volunteerId s =
     (case daysData s (selectedEventDate s) of
        None \<Rightarrow> Inr s
      | Some dayState \<Rightarrow>
          (case array_map
                  (\<lambda>e. if ev_id e = eventId
                       then (case filterArray (\<lambda>v. vol_id v \<noteq> volunteerId)
                                    (volunteersOf e roleId) of
                               Inl err \<Rightarrow> Inl err
                             | Inr vs \<Rightarrow> Inr (e\<lparr>roles := (roles e)(roleId \<mapsto> vs)\<rparr>))
                       else Inr e)
                  (events dayState) of
             Inl err \<Rightarrow> Inl err
           | Inr updatedEvents \<Rightarrow>
               (let updatedEvent = find (\<lambda>e. ev_id e = eventId) updatedEvents
                in Inr (s\<lparr>daysData :=
                            (daysData s)(selectedEventDate s \<mapsto>
                               dayState\<lparr>events := updatedEvents\<rparr>),
                          selectedEvent :=
                            (case updatedEvent of
                               None \<Rightarrow> selectedEvent s
                             | Some u \<Rightarrow> Some u)\<rparr>))))"


section \<open>Event detail modal (components/EventDetailModal.tsx)\<close>

text \<open>
  The component \<^verbatim>\<open>EventDetailModal\<close> (in the source tree it is the third component of
  \<^verbatim>\<open>src/components/RoleRow.tsx\<close>), which \<^verbatim>\<open>CalendarGrid\<close> renders with its own handlers as props.
  The modal shows \<^verbatim>\<open>selectedEvent\<close> (it renders nothing while that is null) and keeps
  the text being edited in its own cell \<^verbatim>\<open>editedDetails\<close>. Its lock button is the only
  caller of \<^verbatim>\<open>onUpdateEvent\<close>, which \<^verbatim>\<open>CalendarGrid\<close> binds to \<^const>\<open>handleUpdateEvent\<close>.
\<close>

definition handleToggleLockClick :: "string \<Rightarrow> GridState \<Rightarrow> GridState" where
  "handleToggleLockClick editedDetails s =
     (case selectedEvent s of
        None \<Rightarrow> s
      | Some event \<Rightarrow>
          if locked event then s\<lparr>showUnlockConfirm := True\<rparr>
          else (let trimmedDetails = trim editedDetails in
                if trimmedDetails \<noteq> []
                then handleToggleLock (ev_id event) (handleUpdateEvent (ev_id event) trimmedDetails s)
                else s))"


section \<open>Volunteer signup modal (components/VolunteerSignupModal.tsx)\<close>

text \<open>
  The form keeps one \<^verbatim>\<open>InputState\<close> per event and role in \<^verbatim>\<open>inputs\<close>; a missing one reads
  as the empty form. \<^verbatim>\<open>handleAddVolunteer\<close> is given the list of the role's volunteers by
  the row that renders it (\<^verbatim>\<open>event.roles[role.id] || []\<close>) and reports to the parent
  through the prop \<^verbatim>\<open>onAddVolunteer\<close>. The state is the pair of \<^verbatim>\<open>inputs\<close> and the parent's
  state.
\<close>

record InputState =
  in_name :: string
  in_phone :: string
  in_error :: string

record InputUpdates =
  upd_name :: "string option"
  upd_phone :: "string option"
  upd_error :: "string option"

definition emptyInput :: InputState where
  \<comment> \<open>the literal \<^verbatim>\<open>{ name: '', phone: '', error: '' }\<close>\<close>
  "emptyInput = \<lparr>in_name = [], in_phone = [], in_error = []\<rparr>"

definition getInputState ::
  "string \<Rightarrow> string \<Rightarrow> (string \<rightharpoonup> (string \<rightharpoonup> InputState)) \<Rightarrow> InputState" where
  "getInputState eventId roleId inputs =
     (case inputs eventId of
        None \<Rightarrow> emptyInput
      | Some perRole \<Rightarrow> (case perRole roleId of None \<Rightarrow> emptyInput | Some st \<Rightarrow> st))"

definition applyUpdates :: "InputState \<Rightarrow> InputUpdates \<Rightarrow> InputState" where
  \<comment> \<open>the spread \<^verbatim>\<open>{ ...state, ...updates }\<close> with a \<^verbatim>\<open>Partial<InputState>\<close>\<close>
  "applyUpdates st u =
     \<lparr>in_name = (case upd_name u of None \<Rightarrow> in_name st | Some x \<Rightarrow> x),
      in_phone = (case upd_phone u of None \<Rightarrow> in_phone st | Some x \<Rightarrow> x),
      in_error = (case upd_error u of None \<Rightarrow> in_error st | Some x \<Rightarrow> x)\<rparr>"

definition updateInput ::
  "string \<Rightarrow> string \<Rightarrow> InputUpdates \<Rightarrow> (string \<rightharpoonup> (string \<rightharpoonup> InputState))
     \<Rightarrow> (string \<rightharpoonup> (string \<rightharpoonup> InputState))" where
  "updateInput eventId roleId updates inputs =
     inputs(eventId \<mapsto>
       (case inputs eventId of None \<Rightarrow> Map.empty | Some perRole \<Rightarrow> perRole)
         (roleId \<mapsto> applyUpdates (getInputState eventId roleId inputs) updates))"

definition errorOnly :: "string \<Rightarrow> InputUpdates" where
  \<comment> \<open>the literal \<^verbatim>\<open>{ error: msg }\<close>\<close>
  "errorOnly msg = \<lparr>upd_name = None, upd_phone = None, upd_error = Some msg\<rparr>"

definition resetAll :: InputUpdates where
  \<comment> \<open>the literal \<^verbatim>\<open>{ name: '', phone: '', error: '' }\<close> as an update\<close>
  "resetAll = \<lparr>upd_name = Some [], upd_phone = Some [], upd_error = Some []\<rparr>"

definition signup_handleAddVolunteer ::
  "(string \<Rightarrow> string \<Rightarrow> VolunteerEntry \<Rightarrow> 'p \<Rightarrow> 'p) \<Rightarrow> string \<Rightarrow> string \<Rightarrow> string
     \<Rightarrow> VolunteerEntry list \<Rightarrow> (string \<rightharpoonup> (string \<rightharpoonup> InputState)) \<times> 'p
     \<Rightarrow> (string \<rightharpoonup> (string \<rightharpoonup> InputState)) \<times> 'p" where
  \<comment> \<open>\<^verbatim>\<open>handleAddVolunteer\<close> of the modal; \<open>onAddVolunteer\<close> is its prop, acting on the
      parent's state, and \<open>newId\<close> the value of \<^verbatim>\<open>generateId()\<close>\<close>
  "signup_handleAddVolunteer onAddVolunteer newId eventId roleId existingVolunteers st =
     (let inputs = fst st;
          parent = snd st;
          state = getInputState eventId roleId inputs;
          nm = trim (in_name state);
          phone = in_phone state
      in if nm = [] then
           (updateInput eventId roleId (errorOnly ''Name is required'') inputs, parent)
         else if \<not> isValidPhone phone then
           (updateInput eventId roleId
              (errorOnly ''Please enter a valid 10-digit phone number'') inputs, parent)
         else if isDuplicateVolunteer existingVolunteers nm phone then
           (updateInput eventId roleId
              (errorOnly ''You are already signed up for this role'') inputs, parent)
         else
           (let volunteer = \<lparr>vol_id = newId, vol_name = nm, vol_phone = cleanPhone phone\<rparr>
            in (updateInput eventId roleId resetAll inputs,
                onAddVolunteer eventId roleId volunteer parent)))"


section \<open>User actions\<close>

text \<open>
  What the rendered components let a user do to the state of \<^verbatim>\<open>CalendarGrid\<close>:
  \<^item> \<^verbatim>\<open>DayCard\<close> lists the events stored for a day and opens one in the detail modal, or
    opens the add-event modal for the day;
  \<^item> \<^verbatim>\<open>AddEventModal.handleSave\<close> trims the text, refuses an empty one, and otherwise calls
    \<^verbatim>\<open>onSave\<close> and closes itself (\<^verbatim>\<open>setAddEventDate('')\<close>);
  \<^item> \<^verbatim>\<open>EventDetailModal\<close>, open while \<^verbatim>\<open>selectedEvent\<close> is set, offers the lock button, the
    delete request, adding and removing volunteers of the shown event, and closing;
  \<^item> \<^verbatim>\<open>ConfirmationDialog.handleConfirm\<close> runs \<^verbatim>\<open>onConfirm\<close> and closes the dialog.

  \<^verbatim>\<open>generateId()\<close> joins the clock and a random string; the step for a new event takes
  its value to differ from the ids of the stored events. A volunteer handler that throws
  sets no state, so it makes no step.
\<close>

definition initialState :: GridState where
  "initialState =
     \<lparr>daysData = Map.empty, selectedEvent = None, selectedEventDate = [],
      addEventDate = [], showUnlockConfirm = False\<rparr>"

definition handleAddEventClick :: "string \<Rightarrow> GridState \<Rightarrow> GridState" where
  "handleAddEventClick date s = s\<lparr>addEventDate := date\<rparr>"

definition addEventModal_handleSave :: "string \<Rightarrow> string \<Rightarrow> int \<Rightarrow> GridState \<Rightarrow> GridState" where
  "addEventModal_handleSave dets newId now s =
     (let trimmedDetails = trim dets in
      if trimmedDetails = [] then s
      else (handleSaveNewEvent trimmedDetails newId now s)\<lparr>addEventDate := []\<rparr>)"

definition unlockDialog_handleConfirm :: "GridState \<Rightarrow> GridState" where
  "unlockDialog_handleConfirm s = (handleConfirmUnlock s)\<lparr>showUnlockConfirm := False\<rparr>"

definition onClose :: "GridState \<Rightarrow> GridState" where
  "onClose s = s\<lparr>selectedEvent := None\<rparr>"

inductive ui_step :: "GridState \<Rightarrow> GridState \<Rightarrow> bool" where
  click_event:
    "daysData s date = Some d \<Longrightarrow> ev \<in> set (events d) \<Longrightarrow> ui_step s (handleEventClick date ev s)"
| click_add_event:
    "ui_step s (handleAddEventClick date s)"
| save_new_event:
    "addEventDate s \<noteq> [] \<Longrightarrow>
     (\<forall>date d. daysData s date = Some d \<longrightarrow> newId \<notin> ev_id ` set (events d)) \<Longrightarrow>
     ui_step s (addEventModal_handleSave dets newId now s)"
| lock_button:
    "selectedEvent s \<noteq> None \<Longrightarrow> ui_step s (handleToggleLockClick editedDetails s)"
| confirm_unlock:
    "showUnlockConfirm s \<Longrightarrow> ui_step s (unlockDialog_handleConfirm s)"
| cancel_unlock:
    "ui_step s (s\<lparr>showUnlockConfirm := False\<rparr>)"
| confirm_delete:
    "ui_step s (handleDeleteEvent s)"
| add_volunteer:
    "selectedEvent s = Some ev \<Longrightarrow>
     handleAddVolunteer (ev_id ev) roleId volunteer s = Inr s' \<Longrightarrow> ui_step s s'"
| remove_volunteer:
    "selectedEvent s = Some ev \<Longrightarrow>
     handleRemoveVolunteer (ev_id ev) roleId volunteerId s = Inr s' \<Longrightarrow> ui_step s s'"
| close_modal:
    "ui_step s (onClose s)"

inductive reachable :: "GridState \<Rightarrow> bool" where
  initial: "reachable initialState"
| step: "reachable s \<Longrightarrow> ui_step s s' \<Longrightarrow> reachable s'"

definition grid_invariant :: "GridState \<Rightarrow> bool" where
  \<comment> \<open>event ids are distinct within a day, and the event shown in the modal is a stored one\<close>
  "grid_invariant s \<longleftrightarrow>
     (\<forall>date d. daysData s date = Some d \<longrightarrow> distinct (map ev_id (events d))) \<and>
     (\<forall>ev. selectedEvent s = Some ev \<longrightarrow>
        (\<exists>d. daysData s (selectedEventDate s) = Some d \<and> ev \<in> set (events d)))"


section \<open>Example data\<close>

text \<open>
  The event of the scenario "create an event with details Jumuah Appeal": locked, with an
  empty roles mapping, shown in the detail modal. The staffed state has two volunteers
  signed up for the role \<^verbatim>\<open>role-4\<close>, the signed state is the fresh one after Ali has
  signed up for it, the entered state the fresh one with an empty entry for \<^verbatim>\<open>role-1\<close>.
\<close>

definition fresh_event :: Event where
  "fresh_event =
     \<lparr>ev_id = ''e1'', details = ''Jumuah Appeal'', locked = True, roles = Map.empty,
      createdAt = 0\<rparr>"

definition fresh_state :: GridState where
  "fresh_state =
     \<lparr>daysData = [''2026-03-06'' \<mapsto> \<lparr>events = [fresh_event]\<rparr>],
      selectedEvent = Some fresh_event, selectedEventDate = ''2026-03-06'',
      addEventDate = [], showUnlockConfirm = False\<rparr>"

definition staffed_volunteers :: "VolunteerEntry list" where
  "staffed_volunteers =
     [\<lparr>vol_id = ''v1'', vol_name = ''Ali'', vol_phone = ''3125550199''\<rparr>,
      \<lparr>vol_id = ''v2'', vol_name = ''Jane Doe'', vol_phone = ''5551234567''\<rparr>]"

definition staffed_event :: Event where
  "staffed_event =
     \<lparr>ev_id = ''e1'', details = ''Jumuah Appeal'', locked = False,
      roles = [''role-4'' \<mapsto> staffed_volunteers], createdAt = 0\<rparr>"

definition staffed_state :: GridState where
  "staffed_state =
     \<lparr>daysData = [''2026-03-06'' \<mapsto> \<lparr>events = [staffed_event]\<rparr>],
      selectedEvent = Some staffed_event, selectedEventDate = ''2026-03-06'',
      addEventDate = [], showUnlockConfirm = False\<rparr>"

definition ali :: VolunteerEntry where
  "ali = \<lparr>vol_id = ''v1'', vol_name = ''Ali'', vol_phone = ''3125550199''\<rparr>"

definition signed_event :: Event where
  "signed_event = fresh_event\<lparr>roles := [''role-4'' \<mapsto> [ali]]\<rparr>"

definition signed_state :: GridState where
  "signed_state =
     \<lparr>daysData = [''2026-03-06'' \<mapsto> \<lparr>events = [signed_event]\<rparr>],
      selectedEvent = Some signed_event, selectedEventDate = ''2026-03-06'',
      addEventDate = [], showUnlockConfirm = False\<rparr>"



definition grid_onAddVolunteer ::
  "string \<Rightarrow> string \<Rightarrow> VolunteerEntry \<Rightarrow> js_error + GridState \<Rightarrow> js_error + GridState" where
  \<comment> \<open>the grid's handler as the prop \<^verbatim>\<open>onAddVolunteer\<close>, on a grid that is still running\<close>
  "grid_onAddVolunteer eventId roleId volunteer p =
     (case p of Inl err \<Rightarrow> Inl err | Inr s \<Rightarrow> handleAddVolunteer eventId roleId volunteer s)"

definition blank_name_inputs :: "string \<rightharpoonup> (string \<rightharpoonup> InputState)" where
  "blank_name_inputs =
     [''e1'' \<mapsto> [''role-4'' \<mapsto>
        \<lparr>in_name = ''  '', in_phone = ''(555) 123-4567'', in_error = []\<rparr>]]"


definition duplicate_inputs :: "string \<rightharpoonup> (string \<rightharpoonup> InputState)" where
  "duplicate_inputs =
     [''e1'' \<mapsto> [''role-4'' \<mapsto>
        \<lparr>in_name = '' jane doe'', in_phone = ''(555) 123-4567'', in_error = []\<rparr>]]"


section \<open>Phone utilities\<close>

lemma stripNonDigits_Nil: "stripNonDigits [] = []"
  by (simp add: stripNonDigits_def)

lemma stripNonDigits_Cons:
  "stripNonDigits (c # s) = (if isDigit c then c # stripNonDigits s else stripNonDigits s)"
  by (simp add: stripNonDigits_def)

lemma stripNonDigits_append: "stripNonDigits (a @ b) = stripNonDigits a @ stripNonDigits b"
  by (simp add: stripNonDigits_def)

lemma stripNonDigits_slice:
  "stripNonDigits (slice a b (stripNonDigits s)) = slice a b (stripNonDigits s)"
  unfolding stripNonDigits_def slice_def
  by (rule filter_True) (auto dest!: in_set_takeD in_set_dropD)

lemma isDigit_punctuation:
  "\<not> isDigit (CHR ''('')" "\<not> isDigit (CHR '')'')" "\<not> isDigit (CHR '' '')"
  "\<not> isDigit (CHR ''-'')"
  by (simp_all add: isDigit_def)

lemma take_10_in_three: "take 3 ds @ take 3 (drop 3 ds) @ take 4 (drop 6 ds) = take 10 ds"
proof -
  have "take 10 ds = take (3 + (3 + 4)) ds" by simp
  also have "\<dots> = take 3 ds @ take (3 + 4) (drop 3 ds)" by (simp only: take_add)
  also have "take (3 + 4) (drop 3 ds) = take 3 (drop 3 ds) @ take 4 (drop 3 (drop 3 ds))"
    by (simp only: take_add)
  finally show ?thesis by simp
qed

lemma maskPhoneInput_full:
  assumes "6 \<le> length (stripNonDigits s)"
  shows "maskPhoneInput s =
           ''('' @ slice 0 3 (stripNonDigits s) @ '') '' @ slice 3 6 (stripNonDigits s) @
           ''-'' @ slice 6 10 (stripNonDigits s)"
  using assms by (cases "stripNonDigits s") (simp_all add: maskPhoneInput_def Let_def)

lemma stripNonDigits_maskPhoneInput:
  assumes "6 \<le> length (stripNonDigits s)"
  shows "stripNonDigits (maskPhoneInput s) = take 10 (stripNonDigits s)"
proof -
  let ?ds = "stripNonDigits s"
  have "stripNonDigits (maskPhoneInput s) = slice 0 3 ?ds @ slice 3 6 ?ds @ slice 6 10 ?ds"
    unfolding maskPhoneInput_full [OF assms]
    by (simp add: stripNonDigits_append stripNonDigits_slice stripNonDigits_Cons
        stripNonDigits_Nil isDigit_punctuation)
  also have "\<dots> = take 10 ?ds"
    using take_10_in_three [of ?ds] by (simp add: slice_def)
  finally show ?thesis .
qed

text \<open>
  C5. Phone round trip: for every input \<open>s\<close> with at least ten digit characters,
  \<open>cleanPhone (maskPhoneInput s)\<close> is the string of the first ten digits left when all
  non-digits are stripped from \<open>s\<close>.
\<close>

theorem phone_round_trip:
  assumes "10 \<le> length (stripNonDigits s)"
  shows "cleanPhone (maskPhoneInput s) = take 10 (stripNonDigits s)"
proof -
  have "stripNonDigits (maskPhoneInput s) = take 10 (stripNonDigits s)"
    using assms by (intro stripNonDigits_maskPhoneInput) simp
  moreover have "length (take 10 (stripNonDigits s)) = 10"
    using assms by simp
  ultimately show ?thesis
    by (simp add: cleanPhone_def Let_def)
qed

theorem phone_round_trip_witness:
  "10 \<le> length (stripNonDigits ''1 (555) 123-4567 ext 89'') \<and>
   cleanPhone (maskPhoneInput ''1 (555) 123-4567 ext 89'') = ''1555123456''"
proof -
  have d: "stripNonDigits ''1 (555) 123-4567 ext 89'' = ''1555123456789''"
    by code_simp
  have h: "10 \<le> length (stripNonDigits ''1 (555) 123-4567 ext 89'')"
    unfolding d by simp
  show ?thesis
    using h phone_round_trip [OF h] unfolding d by simp
qed

lemma length_10_elems:
  assumes "length (xs :: 'a list) = 10"
  obtains d0 d1 d2 d3 d4 d5 d6 d7 d8 d9 where "xs = [d0, d1, d2, d3, d4, d5, d6, d7, d8, d9]"
  using assms by (auto simp: eval_nat_numeral length_Suc_conv)

lemma formatPhone_ten:
  assumes "length (stripNonDigits p) = 10"
  shows "formatPhone p =
           [CHR ''('', stripNonDigits p ! 0, stripNonDigits p ! 1, stripNonDigits p ! 2,
            CHR '')'', CHR '' '', stripNonDigits p ! 3, stripNonDigits p ! 4, stripNonDigits p ! 5,
            CHR ''-'', stripNonDigits p ! 6, stripNonDigits p ! 7, stripNonDigits p ! 8,
            stripNonDigits p ! 9]"
proof -
  from assms obtain d0 d1 d2 d3 d4 d5 d6 d7 d8 d9
    where ds: "stripNonDigits p = [d0, d1, d2, d3, d4, d5, d6, d7, d8, d9]"
    by (rule length_10_elems)
  show ?thesis
    by (simp add: formatPhone_def ds slice_def sliceFrom_def)
qed

text \<open>
  C6, as the code has it. The text of the claim lets every input that is not a string of
  exactly ten digits through unchanged. \<open>formatPhone\<close> strips the non-digits first and
  decides on the number of digits left: an input with punctuation around ten digits is
  rewritten, as the counterexample shows on \<^verbatim>\<open>555-123-4567\<close>.
\<close>

theorem formatPhone_passthrough_counterexample:
  "length ''555-123-4567'' \<noteq> 10 \<and> formatPhone ''555-123-4567'' = ''(555) 123-4567'' \<and>
   formatPhone ''555-123-4567'' \<noteq> ''555-123-4567''"
  by code_simp

text \<open>
  C6 (amended). With \<open>ds\<close> the digits of the input in order: when \<open>ds\<close> has exactly ten
  characters the result is \<^verbatim>\<open>(XXX) XXX-XXXX\<close> filled with \<open>ds\<close>; a string of exactly ten
  digits is its own \<open>ds\<close>; and when \<open>ds\<close> does not have ten characters the input comes
  back unchanged.
\<close>

theorem formatPhone_by_digit_count:
  "(length (stripNonDigits p) = 10 \<longrightarrow>
      formatPhone p =
        [CHR ''('', stripNonDigits p ! 0, stripNonDigits p ! 1, stripNonDigits p ! 2,
         CHR '')'', CHR '' '', stripNonDigits p ! 3, stripNonDigits p ! 4, stripNonDigits p ! 5,
         CHR ''-'', stripNonDigits p ! 6, stripNonDigits p ! 7, stripNonDigits p ! 8,
         stripNonDigits p ! 9]) \<and>
   (length p = 10 \<and> list_all isDigit p \<longrightarrow>
      formatPhone p =
        [CHR ''('', p ! 0, p ! 1, p ! 2, CHR '')'', CHR '' '', p ! 3, p ! 4, p ! 5,
         CHR ''-'', p ! 6, p ! 7, p ! 8, p ! 9]) \<and>
   (length (stripNonDigits p) \<noteq> 10 \<longrightarrow> formatPhone p = p)"
proof (intro conjI impI)
  assume "length (stripNonDigits p) = 10"
  then show "formatPhone p =
        [CHR ''('', stripNonDigits p ! 0, stripNonDigits p ! 1, stripNonDigits p ! 2,
         CHR '')'', CHR '' '', stripNonDigits p ! 3, stripNonDigits p ! 4, stripNonDigits p ! 5,
         CHR ''-'', stripNonDigits p ! 6, stripNonDigits p ! 7, stripNonDigits p ! 8,
         stripNonDigits p ! 9]"
    by (rule formatPhone_ten)
next
  assume a: "length p = 10 \<and> list_all isDigit p"
  then have same: "stripNonDigits p = p"
    by (simp add: stripNonDigits_def list_all_iff)
  with a have "length (stripNonDigits p) = 10"
    by simp
  from formatPhone_ten [OF this]
  show "formatPhone p =
        [CHR ''('', p ! 0, p ! 1, p ! 2, CHR '')'', CHR '' '', p ! 3, p ! 4, p ! 5,
         CHR ''-'', p ! 6, p ! 7, p ! 8, p ! 9]"
    unfolding same .
next
  assume "length (stripNonDigits p) \<noteq> 10"
  then show "formatPhone p = p"
    by (simp add: formatPhone_def)
qed

theorem formatPhone_by_digit_count_witness:
  "formatPhone ''5551234567'' = ''(555) 123-4567'' \<and>
   formatPhone ''555.123.4567'' = ''(555) 123-4567'' \<and>
   formatPhone ''(555) 12'' = ''(555) 12''"
proof -
  have d: "stripNonDigits ''5551234567'' = ''5551234567''"
    "stripNonDigits ''555.123.4567'' = ''5551234567''"
    "stripNonDigits ''(555) 12'' = ''55512''"
    by code_simp+
  have g: "list_all isDigit ''5551234567''"
    by code_simp
  show ?thesis
    using formatPhone_by_digit_count [of "''5551234567''"]
      formatPhone_by_digit_count [of "''555.123.4567''"]
      formatPhone_by_digit_count [of "''(555) 12''"]
    by (simp add: d g)
qed


section \<open>Week navigation\<close>

text \<open>
  C7. \<open>canNavigateToWeek\<close> is membership in the closed interval from \<open>minDate\<close> to
  \<open>maxDate\<close>: both ends of a non-empty interval are navigable, and no date before the one
  or after the other is.
\<close>

theorem canNavigateToWeek_closed_interval:
  "(canNavigateToWeek w b \<longleftrightarrow> minDate b \<le> w \<and> w \<le> maxDate b) \<and>
   (minDate b \<le> maxDate b \<longrightarrow>
      canNavigateToWeek (minDate b) b \<and> canNavigateToWeek (maxDate b) b) \<and>
   (w < minDate b \<longrightarrow> \<not> canNavigateToWeek w b) \<and>
   (maxDate b < w \<longrightarrow> \<not> canNavigateToWeek w b)"
  by (auto simp: canNavigateToWeek_def isBefore_def isAfter_def)

theorem canNavigateToWeek_closed_interval_witness:
  "canNavigateToWeek 1000 \<lparr>minDate = 1000, maxDate = 2000\<rparr> \<and>
   canNavigateToWeek 2000 \<lparr>minDate = 1000, maxDate = 2000\<rparr> \<and>
   \<not> canNavigateToWeek 999 \<lparr>minDate = 1000, maxDate = 2000\<rparr> \<and>
   \<not> canNavigateToWeek 2001 \<lparr>minDate = 1000, maxDate = 2000\<rparr>"
  using canNavigateToWeek_closed_interval [of 999 "\<lparr>minDate = 1000, maxDate = 2000\<rparr>"]
    canNavigateToWeek_closed_interval [of 2001 "\<lparr>minDate = 1000, maxDate = 2000\<rparr>"]
  by simp


section \<open>Reads of the roles object\<close>

lemma volunteersOf_own: "roles e r = Some vs \<Longrightarrow> volunteersOf e r = Volunteers vs"
  by (simp add: volunteersOf_def getProperty_def)


lemma volunteersOf_Volunteers:
  assumes "volunteersOf e r = Volunteers vs"
  shows "vs = entryOrEmpty e r"
proof (cases "roles e r")
  case (Some ws)
  with assms show ?thesis
    by (simp add: volunteersOf_own entryOrEmpty_def)
next
  case None
  with assms show ?thesis
    by (cases "objectPrototypeProperty r")
      (auto simp: volunteersOf_def getProperty_def entryOrEmpty_def objectPrototypeProperty_def
        split: if_splits)
qed

lemma spreadArray_Inr: "spreadArray x = Inr vs \<longleftrightarrow> x = Volunteers vs"
  by (cases x) (simp_all add: spreadArray_def)

lemma filterArray_Inr:
  "filterArray p x = Inr vs \<longleftrightarrow> (\<exists>ws. x = Volunteers ws \<and> vs = filter p ws)"
  by (cases x) (auto simp: filterArray_def)


lemma array_map_InrD:
  assumes "array_map f xs = Inr ys"
      and "\<And>x y. x \<in> set xs \<Longrightarrow> f x = Inr y \<Longrightarrow> y = g x"
  shows "ys = map g xs"
  using assms
proof (induction xs arbitrary: ys)
  case Nil
  then show ?case by simp
next
  case (Cons x xs)
  from Cons.prems(1) obtain y zs where y: "f x = Inr y" and zs: "array_map f xs = Inr zs"
    and ys: "ys = y # zs"
    by (auto split: sum.splits)
  have "y = g x"
    using Cons.prems(2) y by simp
  moreover have "zs = map g xs"
    using Cons.IH [OF zs] Cons.prems(2) by simp
  ultimately show ?case
    using ys by simp
qed

lemma add_callback_value:
  assumes "(if ev_id x = e
            then (case spreadArray (volunteersOf x r) of
                    Inl err \<Rightarrow> Inl err
                  | Inr vs \<Rightarrow> Inr (x\<lparr>roles := (roles x)(r \<mapsto> vs @ [v])\<rparr>))
            else Inr x) = Inr y"
  shows "y = (if ev_id x = e then x\<lparr>roles := (roles x)(r \<mapsto> entryOrEmpty x r @ [v])\<rparr> else x)"
proof (cases "ev_id x = e")
  case True
  with assms obtain vs where vs: "spreadArray (volunteersOf x r) = Inr vs"
    and y: "y = x\<lparr>roles := (roles x)(r \<mapsto> vs @ [v])\<rparr>"
    by (auto split: sum.splits)
  from vs have "vs = entryOrEmpty x r"
    by (simp add: spreadArray_Inr volunteersOf_Volunteers)
  with y True show ?thesis by simp
next
  case False
  with assms show ?thesis by simp
qed

lemma remove_callback_value:
  assumes "(if ev_id x = e
            then (case filterArray p (volunteersOf x r) of
                    Inl err \<Rightarrow> Inl err
                  | Inr vs \<Rightarrow> Inr (x\<lparr>roles := (roles x)(r \<mapsto> vs)\<rparr>))
            else Inr x) = Inr y"
  shows "y = (if ev_id x = e then x\<lparr>roles := (roles x)(r \<mapsto> filter p (entryOrEmpty x r))\<rparr> else x)"
proof (cases "ev_id x = e")
  case True
  with assms obtain vs where vs: "filterArray p (volunteersOf x r) = Inr vs"
    and y: "y = x\<lparr>roles := (roles x)(r \<mapsto> vs)\<rparr>"
    by (auto split: sum.splits)
  from vs obtain ws where "volunteersOf x r = Volunteers ws" "vs = filter p ws"
    by (auto simp: filterArray_Inr)
  then have "vs = filter p (entryOrEmpty x r)"
    using volunteersOf_Volunteers by blast
  with y True show ?thesis by simp
next
  case False
  with assms show ?thesis by simp
qed

lemma handleAddVolunteer_None:
  "daysData s (selectedEventDate s) = None \<Longrightarrow> handleAddVolunteer e r v s = Inr s"
  by (simp add: handleAddVolunteer_def)

lemma handleAddVolunteer_Inr:
  assumes "handleAddVolunteer e r v s = Inr s'"
      and "daysData s (selectedEventDate s) = Some d"
  shows "s' =
      s\<lparr>daysData := (daysData s)(selectedEventDate s \<mapsto>
          d\<lparr>events := map (\<lambda>x. if ev_id x = e
             then x\<lparr>roles := (roles x)(r \<mapsto> entryOrEmpty x r @ [v])\<rparr>
             else x) (events d)\<rparr>),
        selectedEvent := (case find (\<lambda>x. ev_id x = e) (map (\<lambda>x. if ev_id x = e
             then x\<lparr>roles := (roles x)(r \<mapsto> entryOrEmpty x r @ [v])\<rparr>
             else x) (events d)) of
                            None \<Rightarrow> selectedEvent s | Some u \<Rightarrow> Some u)\<rparr>"
proof -
  let ?f = "\<lambda>x. if ev_id x = e
            then (case spreadArray (volunteersOf x r) of
                    Inl err \<Rightarrow> Inl err
                  | Inr vs \<Rightarrow> Inr (x\<lparr>roles := (roles x)(r \<mapsto> vs @ [v])\<rparr>))
            else Inr x"
  from assms obtain ys where ys: "array_map ?f (events d) = Inr ys"
    and s': "s' = s\<lparr>daysData := (daysData s)(selectedEventDate s \<mapsto> d\<lparr>events := ys\<rparr>),
        selectedEvent := (case find (\<lambda>x. ev_id x = e) ys of
                            None \<Rightarrow> selectedEvent s | Some u \<Rightarrow> Some u)\<rparr>"
    by (auto simp: handleAddVolunteer_def Let_def split: sum.splits)
  have "ys = map (\<lambda>x. if ev_id x = e
             then x\<lparr>roles := (roles x)(r \<mapsto> entryOrEmpty x r @ [v])\<rparr>
             else x) (events d)"
    by (rule array_map_InrD [OF ys]) (rule add_callback_value)
  with s' show ?thesis by simp
qed

lemma handleRemoveVolunteer_None:
  "daysData s (selectedEventDate s) = None \<Longrightarrow> handleRemoveVolunteer e r v s = Inr s"
  by (simp add: handleRemoveVolunteer_def)

lemma handleRemoveVolunteer_Inr:
  assumes "handleRemoveVolunteer e r v s = Inr s'"
      and "daysData s (selectedEventDate s) = Some d"
  shows "s' =
      s\<lparr>daysData := (daysData s)(selectedEventDate s \<mapsto>
          d\<lparr>events := map (\<lambda>x. if ev_id x = e
             then x\<lparr>roles := (roles x)(r \<mapsto> filter (\<lambda>y. vol_id y \<noteq> v) (entryOrEmpty x r))\<rparr>
             else x) (events d)\<rparr>),
        selectedEvent := (case find (\<lambda>x. ev_id x = e) (map (\<lambda>x. if ev_id x = e
             then x\<lparr>roles := (roles x)(r \<mapsto> filter (\<lambda>y. vol_id y \<noteq> v) (entryOrEmpty x r))\<rparr>
             else x) (events d)) of
                            None \<Rightarrow> selectedEvent s | Some u \<Rightarrow> Some u)\<rparr>"
proof -
  let ?f = "\<lambda>x. if ev_id x = e
            then (case filterArray (\<lambda>y. vol_id y \<noteq> v) (volunteersOf x r) of
                    Inl err \<Rightarrow> Inl err
                  | Inr vs \<Rightarrow> Inr (x\<lparr>roles := (roles x)(r \<mapsto> vs)\<rparr>))
            else Inr x"
  from assms obtain ys where ys: "array_map ?f (events d) = Inr ys"
    and s': "s' = s\<lparr>daysData := (daysData s)(selectedEventDate s \<mapsto> d\<lparr>events := ys\<rparr>),
        selectedEvent := (case find (\<lambda>x. ev_id x = e) ys of
                            None \<Rightarrow> selectedEvent s | Some u \<Rightarrow> Some u)\<rparr>"
    by (auto simp: handleRemoveVolunteer_def Let_def split: sum.splits)
  have "ys = map (\<lambda>x. if ev_id x = e
             then x\<lparr>roles := (roles x)(r \<mapsto> filter (\<lambda>y. vol_id y \<noteq> v) (entryOrEmpty x r))\<rparr>
             else x) (events d)"
    by (rule array_map_InrD [OF ys]) (rule remove_callback_value)
  with s' show ?thesis by simp
qed



section \<open>Volunteer rules\<close>

lemma array_some_iff: "array_some p xs \<longleftrightarrow> (\<exists>x \<in> set xs. p x)"
  by (induction xs) auto

lemma isDuplicateVolunteer_some:
  "isDuplicateVolunteer vs nm ph \<longleftrightarrow>
     (\<exists>v \<in> set vs. toLowerCase (trim (vol_name v)) = toLowerCase (trim nm) \<and>
                    vol_phone v = cleanPhone ph)"
  by (simp add: isDuplicateVolunteer_def array_some_iff)

lemma cleanPhone_stored:
  assumes "length p = 10" "list_all isDigit p"
  shows "cleanPhone p = p"
  using assms by (simp add: cleanPhone_def stripNonDigits_def list_all_iff)

text \<open>
  C3. \<open>isDuplicateVolunteer\<close> holds exactly when some entry of the list has the
  candidate's name, both trimmed and lower-cased, and a phone equal to the candidate's
  cleaned phone. The entry's phone is compared as stored; for entries that store ten
  digits, as the data model has it, cleaning the entry's phone as well makes no
  difference. The entry Jane Doe, 5551234567 makes the candidate jane doe,
  (555) 123-4567 a duplicate.
\<close>

theorem isDuplicateVolunteer_iff:
  "(isDuplicateVolunteer vs nm ph \<longleftrightarrow>
      (\<exists>v \<in> set vs. toLowerCase (trim (vol_name v)) = toLowerCase (trim nm) \<and>
                     vol_phone v = cleanPhone ph)) \<and>
   ((\<forall>v \<in> set vs. length (vol_phone v) = 10 \<and> list_all isDigit (vol_phone v)) \<longrightarrow>
      (isDuplicateVolunteer vs nm ph \<longleftrightarrow>
         (\<exists>v \<in> set vs. toLowerCase (trim (vol_name v)) = toLowerCase (trim nm) \<and>
                        cleanPhone (vol_phone v) = cleanPhone ph))) \<and>
   isDuplicateVolunteer [\<lparr>vol_id = i, vol_name = ''Jane Doe'', vol_phone = ''5551234567''\<rparr>]
     ''jane doe'' ''(555) 123-4567''"
proof (intro conjI impI)
  show "isDuplicateVolunteer vs nm ph \<longleftrightarrow>
      (\<exists>v \<in> set vs. toLowerCase (trim (vol_name v)) = toLowerCase (trim nm) \<and>
                     vol_phone v = cleanPhone ph)"
    by (rule isDuplicateVolunteer_some)
next
  assume "\<forall>v \<in> set vs. length (vol_phone v) = 10 \<and> list_all isDigit (vol_phone v)"
  then have "\<forall>v \<in> set vs. cleanPhone (vol_phone v) = vol_phone v"
    by (simp add: cleanPhone_stored)
  then show "isDuplicateVolunteer vs nm ph \<longleftrightarrow>
      (\<exists>v \<in> set vs. toLowerCase (trim (vol_name v)) = toLowerCase (trim nm) \<and>
                     cleanPhone (vol_phone v) = cleanPhone ph)"
    unfolding isDuplicateVolunteer_some by (metis (no_types, lifting))
next
  have 1: "toLowerCase (trim ''Jane Doe'') = ''jane doe''" by code_simp
  have 2: "toLowerCase (trim ''jane doe'') = ''jane doe''" by code_simp
  have 3: "cleanPhone ''(555) 123-4567'' = ''5551234567''" by code_simp
  show "isDuplicateVolunteer [\<lparr>vol_id = i, vol_name = ''Jane Doe'', vol_phone = ''5551234567''\<rparr>]
     ''jane doe'' ''(555) 123-4567''"
    by (simp add: isDuplicateVolunteer_def 1 2 3)
qed

theorem isDuplicateVolunteer_iff_witness:
  "isDuplicateVolunteer
     [\<lparr>vol_id = ''v1'', vol_name = ''Ali'', vol_phone = ''3125550199''\<rparr>,
      \<lparr>vol_id = ''v2'', vol_name = ''Jane Doe'', vol_phone = ''5551234567''\<rparr>]
     ''  JANE doe '' ''555.123.4567'' \<and>
   \<not> isDuplicateVolunteer
     [\<lparr>vol_id = ''v1'', vol_name = ''Ali'', vol_phone = ''3125550199''\<rparr>,
      \<lparr>vol_id = ''v2'', vol_name = ''Jane Doe'', vol_phone = ''5551234567''\<rparr>]
     ''Jane Doe'' ''555-123-4568''"
proof -
  have n: "toLowerCase (trim ''Ali'') = ''ali''"
    "toLowerCase (trim ''Jane Doe'') = ''jane doe''"
    "toLowerCase (trim ''  JANE doe '') = ''jane doe''"
    by code_simp+
  have p: "cleanPhone ''555.123.4567'' = ''5551234567''"
    "cleanPhone ''555-123-4568'' = ''5551234568''"
    by code_simp+
  show ?thesis
    using isDuplicateVolunteer_iff [of
        "[\<lparr>vol_id = ''v1'', vol_name = ''Ali'', vol_phone = ''3125550199''\<rparr>,
          \<lparr>vol_id = ''v2'', vol_name = ''Jane Doe'', vol_phone = ''5551234567''\<rparr>]"
        "''  JANE doe ''" "''555.123.4567''"]
      isDuplicateVolunteer_iff [of
        "[\<lparr>vol_id = ''v1'', vol_name = ''Ali'', vol_phone = ''3125550199''\<rparr>,
          \<lparr>vol_id = ''v2'', vol_name = ''Jane Doe'', vol_phone = ''5551234567''\<rparr>]"
        "''Jane Doe''" "''555-123-4568''"]
    by (simp add: n p)
qed

lemma getCoverageStatus_missing_entry:
  assumes "roles e (role_id r) = None" "objectPrototypeProperty (role_id r) = None"
  shows "getCoverageStatus e r =
           \<lparr>current = Some 0, minimum = minVolunteers r, isMet = (0 \<ge> minVolunteers r)\<rparr>"
  using assms
  by (simp add: getCoverageStatus_def volunteersOf_def getProperty_def lengthOf_def Let_def)

lemma getCoverageStatus_proto_key:
  "getCoverageStatus (createEmptyEvent ''e1'' 0)
     \<lparr>role_id = ''__proto__'', label = ''Custom'', isDefault = Some False, minVolunteers = 0\<rparr>
   = \<lparr>current = None, minimum = 0, isMet = False\<rparr>"
  by (simp add: getCoverageStatus_def volunteersOf_def getProperty_def lengthOf_def Let_def
      createEmptyEvent_def objectPrototypeProperty_def)



section \<open>Adding a volunteer\<close>

lemma dropWhile_unchanged: "xs = [] \<or> \<not> P (hd xs) \<Longrightarrow> dropWhile P xs = xs"
  by (cases xs) auto

lemma dropWhile_head: "dropWhile P xs = [] \<or> \<not> P (hd (dropWhile P xs))"
  using hd_dropWhile by blast

lemma trim_trim: "trim (trim s) = trim s"
proof -
  let ?P = isWhiteSpace
  let ?a = "dropWhile ?P s"
  let ?b = "dropWhile ?P (rev ?a)"
  have b: "?b = [] \<or> \<not> ?P (hd ?b)" by (rule dropWhile_head)
  have a: "?a = [] \<or> \<not> ?P (hd ?a)" by (rule dropWhile_head)
  have "rev ?b = [] \<or> \<not> ?P (hd (rev ?b))"
  proof (cases "?b = []")
    case True
    then show ?thesis by simp
  next
    case False
    obtain ws where ws: "rev ?a = ws @ ?b"
      by (metis takeWhile_dropWhile_id)
    then have "?a = rev ?b @ rev ws"
      by (metis rev_append rev_rev_ident)
    then have "hd ?a = hd (rev ?b)"
      using False by (metis hd_append2 rev_is_Nil_conv)
    moreover have "?a \<noteq> []"
    proof
      assume e: "?a = []"
      have "?b = []" unfolding e by simp
      with False show False by blast
    qed
    ultimately show ?thesis using a by auto
  qed
  then have 1: "dropWhile ?P (rev ?b) = rev ?b" by (rule dropWhile_unchanged)
  have 2: "dropWhile ?P ?b = ?b" using b by (rule dropWhile_unchanged)
  show ?thesis
    unfolding trim_def 1 by (simp add: 2)
qed

lemma isDuplicateVolunteer_trim:
  "isDuplicateVolunteer vs (trim nm) ph = isDuplicateVolunteer vs nm ph"
  by (simp add: isDuplicateVolunteer_def trim_trim)

lemma getInputState_updateInput:
  "getInputState e r (updateInput e r u inputs) = applyUpdates (getInputState e r inputs) u"
  by (simp add: getInputState_def updateInput_def)

lemma add_volunteer_success:
  assumes "trim (in_name (getInputState e r inputs)) \<noteq> []"
      and "length (stripNonDigits (in_phone (getInputState e r inputs))) = 10"
      and "\<not> isDuplicateVolunteer existing (in_name (getInputState e r inputs))
             (in_phone (getInputState e r inputs))"
  shows "snd (signup_handleAddVolunteer onAdd newId e r existing (inputs, parent)) =
           onAdd e r
             \<lparr>vol_id = newId, vol_name = trim (in_name (getInputState e r inputs)),
              vol_phone = stripNonDigits (in_phone (getInputState e r inputs))\<rparr> parent"
  using assms
  by (simp add: signup_handleAddVolunteer_def Let_def isValidPhone_def
      isDuplicateVolunteer_trim cleanPhone_def)

text \<open>
  C2. The signup form's add-volunteer is atomic on error. With the name and phone of the
  form for the event and role: if the trimmed name is empty, or the phone does not strip
  to exactly ten digits, or the pair is a duplicate in the list of existing volunteers,
  then the parent's state (days, events, volunteers) is returned as it was, whatever the
  \<open>onAddVolunteer\<close> callback is, and the form carries a non-empty error message.
\<close>

theorem add_volunteer_atomic_on_error:
  assumes "trim (in_name (getInputState e r inputs)) = [] \<or>
           length (stripNonDigits (in_phone (getInputState e r inputs))) \<noteq> 10 \<or>
           isDuplicateVolunteer existing (in_name (getInputState e r inputs))
             (in_phone (getInputState e r inputs))"
  shows "snd (signup_handleAddVolunteer onAdd newId e r existing (inputs, parent)) = parent \<and>
         in_error (getInputState e r
            (fst (signup_handleAddVolunteer onAdd newId e r existing (inputs, parent)))) \<noteq> []"
  using assms
  by (auto simp: signup_handleAddVolunteer_def Let_def isValidPhone_def
      isDuplicateVolunteer_trim getInputState_updateInput applyUpdates_def errorOnly_def)

theorem add_volunteer_atomic_on_error_witness:
  "snd (signup_handleAddVolunteer grid_onAddVolunteer ''v3'' ''e1'' ''role-4''
          staffed_volunteers (blank_name_inputs, Inr staffed_state))
     = Inr staffed_state \<and>
   in_error (getInputState ''e1'' ''role-4''
     (fst (signup_handleAddVolunteer grid_onAddVolunteer ''v3'' ''e1'' ''role-4''
             staffed_volunteers (blank_name_inputs, Inr staffed_state)))) \<noteq> [] \<and>
   snd (signup_handleAddVolunteer grid_onAddVolunteer ''v3'' ''e1'' ''role-4''
          staffed_volunteers (duplicate_inputs, Inr staffed_state))
     = Inr staffed_state \<and>
   in_error (getInputState ''e1'' ''role-4''
     (fst (signup_handleAddVolunteer grid_onAddVolunteer ''v3'' ''e1'' ''role-4''
             staffed_volunteers (duplicate_inputs, Inr staffed_state)))) \<noteq> []"
proof -
  have g1: "getInputState ''e1'' ''role-4'' blank_name_inputs =
      \<lparr>in_name = ''  '', in_phone = ''(555) 123-4567'', in_error = []\<rparr>"
    by (simp add: getInputState_def blank_name_inputs_def)
  have t1: "trim ''  '' = []"
    by code_simp
  have h1: "trim (in_name (getInputState ''e1'' ''role-4'' blank_name_inputs)) = [] \<or>
      length (stripNonDigits (in_phone (getInputState ''e1'' ''role-4'' blank_name_inputs))) \<noteq> 10 \<or>
      isDuplicateVolunteer staffed_volunteers
        (in_name (getInputState ''e1'' ''role-4'' blank_name_inputs))
        (in_phone (getInputState ''e1'' ''role-4'' blank_name_inputs))"
    by (simp add: g1 t1)
  have g2: "getInputState ''e1'' ''role-4'' duplicate_inputs =
      \<lparr>in_name = '' jane doe'', in_phone = ''(555) 123-4567'', in_error = []\<rparr>"
    by (simp add: getInputState_def duplicate_inputs_def)
  have v: "staffed_volunteers =
      [\<lparr>vol_id = ''v1'', vol_name = ''Ali'', vol_phone = ''3125550199''\<rparr>,
       \<lparr>vol_id = ''v2'', vol_name = ''Jane Doe'', vol_phone = ''5551234567''\<rparr>]"
    by (simp add: staffed_volunteers_def)
  have n: "toLowerCase (trim ''Ali'') = ''ali''"
    "toLowerCase (trim ''Jane Doe'') = ''jane doe''"
    "toLowerCase (trim '' jane doe'') = ''jane doe''"
    by code_simp+
  have p: "cleanPhone ''(555) 123-4567'' = ''5551234567''"
    by code_simp
  have dup: "isDuplicateVolunteer staffed_volunteers
      '' jane doe'' ''(555) 123-4567''"
    by (simp add: isDuplicateVolunteer_def v n p)
  have h2: "trim (in_name (getInputState ''e1'' ''role-4'' duplicate_inputs)) = [] \<or>
      length (stripNonDigits (in_phone (getInputState ''e1'' ''role-4'' duplicate_inputs))) \<noteq> 10 \<or>
      isDuplicateVolunteer staffed_volunteers
        (in_name (getInputState ''e1'' ''role-4'' duplicate_inputs))
        (in_phone (getInputState ''e1'' ''role-4'' duplicate_inputs))"
    by (simp add: g2 dup)
  show ?thesis
    using add_volunteer_atomic_on_error [OF h1, of grid_onAddVolunteer "''v3''" "Inr staffed_state"]
      add_volunteer_atomic_on_error [OF h2, of grid_onAddVolunteer "''v3''" "Inr staffed_state"]
    by blast
qed


section \<open>Events of the calendar grid\<close>

text \<open>
  C4. Whatever the details string, \<open>handleSaveNewEvent\<close> appends to the day being added
  to one new event, which is locked, carries the given details and has an empty roles
  mapping.
\<close>

theorem handleSaveNewEvent_creates_locked:
  "\<exists>d. daysData (handleSaveNewEvent dets newId now s) (addEventDate s) = Some d \<and>
       events d =
         (case daysData s (addEventDate s) of None \<Rightarrow> [] | Some d0 \<Rightarrow> events d0) @
         [\<lparr>ev_id = newId, details = dets, locked = True, roles = Map.empty, createdAt = now\<rparr>]"
  by (simp add: handleSaveNewEvent_def Let_def createEmptyEvent_def createEmptyDayState_def
      split: option.split)

theorem handleSaveNewEvent_creates_locked_witness:
  "\<exists>d. daysData (handleSaveNewEvent ''Jumuah Appeal'' ''e2'' 5
             (fresh_state\<lparr>addEventDate := ''2026-03-06''\<rparr>)) ''2026-03-06'' = Some d \<and>
       events d =
         [fresh_event,
          \<lparr>ev_id = ''e2'', details = ''Jumuah Appeal'', locked = True, roles = Map.empty,
           createdAt = 5\<rparr>]"
  using handleSaveNewEvent_creates_locked [of "''Jumuah Appeal''" "''e2''" 5
      "fresh_state\<lparr>addEventDate := ''2026-03-06''\<rparr>"]
  by (simp add: fresh_state_def)

text \<open>
  C9. Frame of toggle-lock. On the selected day \<open>handleToggleLock\<close> keeps the number and
  order of the events; an event with the given id keeps its id, details, creation time
  and roles mapping and has its locked flag negated; every other event of the day is
  unchanged; every other day is unchanged.
\<close>

theorem handleToggleLock_frame:
  assumes "daysData s (selectedEventDate s) = Some d"
  shows "\<exists>d'. daysData (handleToggleLock eid s) (selectedEventDate s) = Some d' \<and>
           length (events d') = length (events d) \<and>
           (\<forall>i < length (events d).
              if ev_id (events d ! i) = eid
              then ev_id (events d' ! i) = ev_id (events d ! i) \<and>
                   details (events d' ! i) = details (events d ! i) \<and>
                   createdAt (events d' ! i) = createdAt (events d ! i) \<and>
                   roles (events d' ! i) = roles (events d ! i) \<and>
                   locked (events d' ! i) = (\<not> locked (events d ! i))
              else events d' ! i = events d ! i) \<and>
           (\<forall>date. date \<noteq> selectedEventDate s \<longrightarrow>
              daysData (handleToggleLock eid s) date = daysData s date)"
  using assms by (simp add: handleToggleLock_def Let_def)

theorem handleToggleLock_frame_witness:
  "daysData (handleToggleLock ''e1'' staffed_state) ''2026-03-06'' =
     Some \<lparr>events = [staffed_event\<lparr>locked := True\<rparr>]\<rparr>"
proof -
  have h: "daysData staffed_state (selectedEventDate staffed_state) =
      Some \<lparr>events = [staffed_event]\<rparr>"
    by (simp add: staffed_state_def)
  have l: "\<not> locked staffed_event" "ev_id staffed_event = ''e1''"
    by (simp_all add: staffed_event_def)
  have sel: "selectedEventDate staffed_state = ''2026-03-06''"
    by (simp add: staffed_state_def)
  from handleToggleLock_frame [OF h, of "''e1''"] obtain d'
    where d': "daysData (handleToggleLock ''e1'' staffed_state) ''2026-03-06'' = Some d'"
      and len: "length (events d') = 1"
      and ev: "ev_id (events d' ! 0) = ev_id staffed_event \<and>
               details (events d' ! 0) = details staffed_event \<and>
               createdAt (events d' ! 0) = createdAt staffed_event \<and>
               roles (events d' ! 0) = roles staffed_event \<and>
               locked (events d' ! 0) = (\<not> locked staffed_event)"
    by (auto simp: sel l)
  from len obtain x where x: "events d' = [x]"
    by (cases "events d'") auto
  with ev l have "x = staffed_event\<lparr>locked := True\<rparr>"
    by simp
  with x have "d' = \<lparr>events = [staffed_event\<lparr>locked := True\<rparr>]\<rparr>"
    by simp
  with d' show ?thesis
    by simp
qed


section \<open>The lock on event details\<close>

lemma same_id_same_event:
  assumes "distinct (map ev_id es)" "x \<in> set es" "y \<in> set es" "ev_id x = ev_id y"
  shows "x = y"
  using assms by (meson distinct_map inj_on_def)

lemma find_in_set: "find P xs = Some u \<Longrightarrow> u \<in> set xs"
  by (induction xs) (auto split: if_splits)

lemma find_None_no: "find P xs = None \<Longrightarrow> x \<in> set xs \<Longrightarrow> \<not> P x"
  by (induction xs) (auto split: if_splits)

lemma map_where_ids:
  assumes "\<And>x. ev_id (f x) = ev_id x"
  shows "map ev_id (map (\<lambda>x. if ev_id x = e then f x else x) es) = map ev_id es"
  using assms by (induction es) auto

lemma invariant_map_selected:
  assumes inv: "grid_invariant s"
      and day: "daysData s (selectedEventDate s) = Some d"
      and ids: "\<And>x. ev_id (f x) = ev_id x"
  shows "grid_invariant
           (s\<lparr>daysData := (daysData s)(selectedEventDate s \<mapsto>
                  d\<lparr>events := map (\<lambda>x. if ev_id x = e then f x else x) (events d)\<rparr>),
              selectedEvent :=
                (case find (\<lambda>x. ev_id x = e)
                        (map (\<lambda>x. if ev_id x = e then f x else x) (events d)) of
                   None \<Rightarrow> selectedEvent s | Some u \<Rightarrow> Some u)\<rparr>)"
proof -
  let ?g = "\<lambda>x. if ev_id x = e then f x else x"
  let ?es = "map ?g (events d)"
  have dist: "distinct (map ev_id ?es)"
    using inv day by (simp add: map_where_ids [OF ids] grid_invariant_def del: map_map)
  have sel: "\<And>ev. (case find (\<lambda>x. ev_id x = e) ?es of None \<Rightarrow> selectedEvent s | Some u \<Rightarrow> Some u)
                = Some ev \<Longrightarrow> ev \<in> set ?es"
  proof -
    fix ev
    assume a: "(case find (\<lambda>x. ev_id x = e) ?es of None \<Rightarrow> selectedEvent s | Some u \<Rightarrow> Some u)
                = Some ev"
    show "ev \<in> set ?es"
    proof (cases "find (\<lambda>x. ev_id x = e) ?es")
      case (Some u)
      with a have "u = ev" by simp
      with Some show ?thesis by (auto dest: find_in_set)
    next
      case None
      with a have s: "selectedEvent s = Some ev" by simp
      with inv day have in_d: "ev \<in> set (events d)"
        by (auto simp: grid_invariant_def)
      then have m: "?g ev \<in> set ?es" unfolding set_map by (rule imageI)
      have "ev_id (?g ev) \<noteq> e" by (rule find_None_no [OF None m])
      then have "ev_id ev \<noteq> e" using ids by (auto split: if_splits)
      then have "?g ev = ev" by simp
      with m show ?thesis by simp
    qed
  qed
  show ?thesis
    unfolding grid_invariant_def
    using inv dist sel by (auto simp: grid_invariant_def simp del: map_map set_map)
qed


lemma inv_handleToggleLock: "grid_invariant s \<Longrightarrow> grid_invariant (handleToggleLock e s)"
proof (cases "daysData s (selectedEventDate s)")
  case None
  assume "grid_invariant s"
  with None show ?thesis by (simp add: handleToggleLock_def)
next
  case (Some d)
  assume inv: "grid_invariant s"
  show ?thesis
    using invariant_map_selected [OF inv Some, of "\<lambda>x. x\<lparr>locked := \<not> locked x\<rparr>" e] Some
    by (simp add: handleToggleLock_def Let_def del: map_map)
qed

lemma inv_handleAddVolunteer:
  assumes "handleAddVolunteer e r v s = Inr s'" and inv: "grid_invariant s"
  shows "grid_invariant s'"
proof (cases "daysData s (selectedEventDate s)")
  case None
  with assms show ?thesis by (simp add: handleAddVolunteer_None)
next
  case (Some d)
  show ?thesis
    unfolding handleAddVolunteer_Inr [OF assms(1) Some]
    by (rule invariant_map_selected [OF inv Some]) simp
qed

lemma inv_handleRemoveVolunteer:
  assumes "handleRemoveVolunteer e r v s = Inr s'" and inv: "grid_invariant s"
  shows "grid_invariant s'"
proof (cases "daysData s (selectedEventDate s)")
  case None
  with assms show ?thesis by (simp add: handleRemoveVolunteer_None)
next
  case (Some d)
  show ?thesis
    unfolding handleRemoveVolunteer_Inr [OF assms(1) Some]
    by (rule invariant_map_selected [OF inv Some]) simp
qed

lemma inv_handleUpdateEvent:
  assumes inv: "grid_invariant s"
  shows "grid_invariant (handleUpdateEvent e t s)"
proof (cases "daysData s (selectedEventDate s)")
  case None
  with inv show ?thesis
    by (auto simp: handleUpdateEvent_def grid_invariant_def split: option.splits)
next
  case (Some d)
  let ?g = "\<lambda>x. if ev_id x = e then x\<lparr>details := t\<rparr> else x"
  have ids: "map ev_id (map ?g (events d)) = map ev_id (events d)"
    by (rule map_where_ids) simp
  have dist: "distinct (map ev_id (map ?g (events d)))"
    unfolding ids using inv Some by (simp add: grid_invariant_def)
  have sel: "\<And>ev. selectedEvent s = Some ev \<Longrightarrow> ?g ev \<in> set (map ?g (events d))"
    using inv Some unfolding set_map by (auto simp: grid_invariant_def)
  have s': "handleUpdateEvent e t s =
      s\<lparr>daysData := (daysData s)(selectedEventDate s \<mapsto> d\<lparr>events := map ?g (events d)\<rparr>),
        selectedEvent := map_option ?g (selectedEvent s)\<rparr>"
    using Some by (cases "selectedEvent s") (simp_all add: handleUpdateEvent_def Let_def)
  show ?thesis
    unfolding s' grid_invariant_def
  proof (intro conjI allI impI)
    fix date d0
    assume "daysData (s\<lparr>daysData := (daysData s)(selectedEventDate s \<mapsto>
                d\<lparr>events := map ?g (events d)\<rparr>),
              selectedEvent := map_option ?g (selectedEvent s)\<rparr>) date = Some d0"
    then show "distinct (map ev_id (events d0))"
      using inv dist by (auto simp: grid_invariant_def simp del: map_map split: if_splits)
  next
    fix ev
    assume "selectedEvent (s\<lparr>daysData := (daysData s)(selectedEventDate s \<mapsto>
                d\<lparr>events := map ?g (events d)\<rparr>),
              selectedEvent := map_option ?g (selectedEvent s)\<rparr>) = Some ev"
    then obtain ev0 where ev0: "selectedEvent s = Some ev0" "ev = ?g ev0"
      by auto
    from sel [OF ev0(1)] ev0(2) have "ev \<in> set (map ?g (events d))"
      by simp
    then show "\<exists>d0. daysData (s\<lparr>daysData := (daysData s)(selectedEventDate s \<mapsto>
                d\<lparr>events := map ?g (events d)\<rparr>),
              selectedEvent := map_option ?g (selectedEvent s)\<rparr>)
             (selectedEventDate (s\<lparr>daysData := (daysData s)(selectedEventDate s \<mapsto>
                d\<lparr>events := map ?g (events d)\<rparr>),
              selectedEvent := map_option ?g (selectedEvent s)\<rparr>)) = Some d0 \<and>
            ev \<in> set (events d0)"
      by (simp del: map_map set_map)
  qed
qed

lemma inv_handleDeleteEvent:
  assumes inv: "grid_invariant s"
  shows "grid_invariant (handleDeleteEvent s)"
  using inv
  by (auto simp: handleDeleteEvent_def grid_invariant_def Let_def distinct_map_filter
      split: option.splits)

lemma inv_handleSaveNewEvent:
  assumes inv: "grid_invariant s"
      and fresh: "\<forall>date d. daysData s date = Some d \<longrightarrow> newId \<notin> ev_id ` set (events d)"
  shows "grid_invariant (handleSaveNewEvent t newId now s)"
  using inv fresh
  by (auto simp: handleSaveNewEvent_def grid_invariant_def Let_def createEmptyEvent_def
      createEmptyDayState_def split: option.splits)

lemma inv_handleEventClick:
  assumes "grid_invariant s" "daysData s date = Some d" "ev \<in> set (events d)"
  shows "grid_invariant (handleEventClick date ev s)"
  using assms by (auto simp: handleEventClick_def grid_invariant_def)

lemma inv_field_updates:
  "grid_invariant (s\<lparr>addEventDate := a\<rparr>) = grid_invariant s"
  "grid_invariant (s\<lparr>showUnlockConfirm := b\<rparr>) = grid_invariant s"
  by (simp_all add: grid_invariant_def)

lemma inv_handleToggleLockClick:
  "grid_invariant s \<Longrightarrow> grid_invariant (handleToggleLockClick ed s)"
  by (simp add: handleToggleLockClick_def Let_def inv_field_updates inv_handleToggleLock
      inv_handleUpdateEvent split: option.split)

lemma ui_step_invariant:
  assumes "ui_step s s'" "grid_invariant s"
  shows "grid_invariant s'"
  using assms
proof (cases rule: ui_step.cases)
  case (click_event date d ev)
  with assms(2) show ?thesis by (simp add: inv_handleEventClick)
next
  case (click_add_event date)
  with assms(2) show ?thesis by (simp add: handleAddEventClick_def inv_field_updates)
next
  case (save_new_event newId dets now)
  with assms(2) show ?thesis
    by (simp add: addEventModal_handleSave_def Let_def inv_field_updates inv_handleSaveNewEvent)
next
  case (lock_button editedDetails)
  with assms(2) show ?thesis by (simp add: inv_handleToggleLockClick)
next
  case confirm_unlock
  with assms(2) show ?thesis
    by (simp add: unlockDialog_handleConfirm_def handleConfirmUnlock_def inv_field_updates
        inv_handleToggleLock split: option.split)
next
  case cancel_unlock
  with assms(2) show ?thesis by (simp add: inv_field_updates)
next
  case confirm_delete
  with assms(2) show ?thesis by (simp add: inv_handleDeleteEvent)
next
  case (add_volunteer ev roleId volunteer)
  from inv_handleAddVolunteer [OF add_volunteer(2) assms(2)] show ?thesis .
next
  case (remove_volunteer ev roleId volunteerId)
  from inv_handleRemoveVolunteer [OF remove_volunteer(2) assms(2)] show ?thesis .
next
  case close_modal
  with assms(2) show ?thesis by (simp add: onClose_def grid_invariant_def)
qed

lemma reachable_invariant: "reachable s \<Longrightarrow> grid_invariant s"
proof (induction rule: reachable.induct)
  case initial
  show ?case by (simp add: grid_invariant_def initialState_def)
next
  case (step s s')
  then show ?case by (simp add: ui_step_invariant)
qed


lemma same_id_in_map:
  assumes "distinct (map ev_id es)" "x \<in> set es" "x' \<in> set (map g es)" "ev_id x' = ev_id x"
      and "\<And>y. ev_id (g y) = ev_id y"
  shows "x' = g x"
proof -
  from assms(3) obtain y where y: "y \<in> set es" "x' = g y" by auto
  with assms(4,5) have "ev_id y = ev_id x" by simp
  with assms(1,2) y(1) have "y = x" by (rule_tac same_id_same_event)
  with y(2) show ?thesis by simp
qed

lemma map_selected_details:
  assumes inv: "grid_invariant s"
      and x: "daysData s date = Some d" "x \<in> set (events d)"
      and s': "daysData s' =
                 (case daysData s (selectedEventDate s) of
                    None \<Rightarrow> daysData s
                  | Some d0 \<Rightarrow> (daysData s)(selectedEventDate s \<mapsto> d0\<lparr>events := map g (events d0)\<rparr>))"
      and ids: "\<And>y. ev_id (g y) = ev_id y"
      and keep: "date = selectedEventDate s \<Longrightarrow> details (g x) = details x"
      and x': "daysData s' date = Some d'" "x' \<in> set (events d')" "ev_id x' = ev_id x"
  shows "details x' = details x"
proof -
  have dist: "distinct (map ev_id (events d))"
    using inv x(1) by (simp add: grid_invariant_def)
  show ?thesis
  proof (cases "date = selectedEventDate s")
    case True
    with x(1) s' x'(1) have "events d' = map g (events d)"
      by auto
    with x'(2) have "x' \<in> set (map g (events d))" by simp
    from same_id_in_map [OF dist x(2) this x'(3) ids] have "x' = g x" .
    with keep [OF True] show ?thesis by simp
  next
    case False
    with s' x'(1) x(1) have "d' = d"
      by (auto split: option.splits)
    with x'(2) have "x' \<in> set (events d)" by simp
    from same_id_same_event [OF dist this x(2) x'(3)] show ?thesis by simp
  qed
qed

lemma daysData_handleToggleLock:
  "daysData (handleToggleLock e s) =
     (case daysData s (selectedEventDate s) of
        None \<Rightarrow> daysData s
      | Some d0 \<Rightarrow> (daysData s)(selectedEventDate s \<mapsto>
          d0\<lparr>events := map (\<lambda>x. if ev_id x = e then x\<lparr>locked := \<not> locked x\<rparr> else x) (events d0)\<rparr>))"
  by (simp add: handleToggleLock_def Let_def split: option.split)

lemma daysData_handleUpdateEvent:
  "daysData (handleUpdateEvent e t s) =
     (case daysData s (selectedEventDate s) of
        None \<Rightarrow> daysData s
      | Some d0 \<Rightarrow> (daysData s)(selectedEventDate s \<mapsto>
          d0\<lparr>events := map (\<lambda>x. if ev_id x = e then x\<lparr>details := t\<rparr> else x) (events d0)\<rparr>))"
  by (simp add: handleUpdateEvent_def Let_def split: option.split)

lemma daysData_handleAddVolunteer:
  assumes "handleAddVolunteer e r v s = Inr s'"
  shows "daysData s' =
     (case daysData s (selectedEventDate s) of
        None \<Rightarrow> daysData s
      | Some d0 \<Rightarrow> (daysData s)(selectedEventDate s \<mapsto>
          d0\<lparr>events := map (\<lambda>x. if ev_id x = e
              then x\<lparr>roles := (roles x)(r \<mapsto> entryOrEmpty x r @ [v])\<rparr> else x) (events d0)\<rparr>))"
proof (cases "daysData s (selectedEventDate s)")
  case None
  with assms show ?thesis by (simp add: handleAddVolunteer_None)
next
  case (Some d)
  show ?thesis
    unfolding handleAddVolunteer_Inr [OF assms Some] using Some by simp
qed

lemma daysData_handleRemoveVolunteer:
  assumes "handleRemoveVolunteer e r v s = Inr s'"
  shows "daysData s' =
     (case daysData s (selectedEventDate s) of
        None \<Rightarrow> daysData s
      | Some d0 \<Rightarrow> (daysData s)(selectedEventDate s \<mapsto>
          d0\<lparr>events := map (\<lambda>x. if ev_id x = e
              then x\<lparr>roles := (roles x)(r \<mapsto> filter (\<lambda>y. vol_id y \<noteq> v) (entryOrEmpty x r))\<rparr>
              else x) (events d0)\<rparr>))"
proof (cases "daysData s (selectedEventDate s)")
  case None
  with assms show ?thesis by (simp add: handleRemoveVolunteer_None)
next
  case (Some d)
  show ?thesis
    unfolding handleRemoveVolunteer_Inr [OF assms Some] using Some by simp
qed

lemma details_handleToggleLock:
  assumes "grid_invariant s" "daysData s date = Some d" "x \<in> set (events d)"
      and "daysData (handleToggleLock e s) date = Some d'" "x' \<in> set (events d')"
      and "ev_id x' = ev_id x"
  shows "details x' = details x"
  by (rule map_selected_details [OF assms(1-3) daysData_handleToggleLock _ _ assms(4-6)]) simp_all

lemma details_handleAddVolunteer:
  assumes "grid_invariant s" "daysData s date = Some d" "x \<in> set (events d)"
      and "handleAddVolunteer e r v s = Inr s'"
      and "daysData s' date = Some d'" "x' \<in> set (events d')"
      and "ev_id x' = ev_id x"
  shows "details x' = details x"
  by (rule map_selected_details
      [OF assms(1-3) daysData_handleAddVolunteer [OF assms(4)] _ _ assms(5-7)]) simp_all

lemma details_handleRemoveVolunteer:
  assumes "grid_invariant s" "daysData s date = Some d" "x \<in> set (events d)"
      and "handleRemoveVolunteer e r v s = Inr s'"
      and "daysData s' date = Some d'" "x' \<in> set (events d')"
      and "ev_id x' = ev_id x"
  shows "details x' = details x"
  by (rule map_selected_details
      [OF assms(1-3) daysData_handleRemoveVolunteer [OF assms(4)] _ _ assms(5-7)]) simp_all

lemma details_handleDeleteEvent:
  assumes "grid_invariant s" "daysData s date = Some d" "x \<in> set (events d)"
      and "daysData (handleDeleteEvent s) date = Some d'" "x' \<in> set (events d')"
      and "ev_id x' = ev_id x"
  shows "details x' = details x"
proof -
  have dist: "distinct (map ev_id (events d))"
    using assms(1,2) by (simp add: grid_invariant_def)
  have "x' \<in> set (events d)"
    using assms(2,4,5)
    by (auto simp: handleDeleteEvent_def Let_def split: option.splits if_splits)
  from same_id_same_event [OF dist this assms(3,6)] show ?thesis by simp
qed

lemma details_handleSaveNewEvent:
  assumes "grid_invariant s" "daysData s date = Some d" "x \<in> set (events d)"
      and fresh: "\<forall>date d. daysData s date = Some d \<longrightarrow> newId \<notin> ev_id ` set (events d)"
      and "daysData (handleSaveNewEvent t newId now s) date = Some d'" "x' \<in> set (events d')"
      and "ev_id x' = ev_id x"
  shows "details x' = details x"
proof -
  have dist: "distinct (map ev_id (events d))"
    using assms(1,2) by (simp add: grid_invariant_def)
  have "ev_id x \<noteq> newId"
    using fresh assms(2,3) by auto
  then have "x' \<in> set (events d)"
    using assms(2,5,6,7)
    by (auto simp: handleSaveNewEvent_def Let_def createEmptyEvent_def
        split: option.splits if_splits)
  from same_id_same_event [OF dist this assms(3,7)] show ?thesis by simp
qed

lemma details_same_days:
  assumes "grid_invariant s" "daysData s date = Some d" "x \<in> set (events d)"
      and "daysData s' = daysData s"
      and "daysData s' date = Some d'" "x' \<in> set (events d')" "ev_id x' = ev_id x"
  shows "details x' = details x"
proof -
  have dist: "distinct (map ev_id (events d))"
    using assms(1,2) by (simp add: grid_invariant_def)
  have "x' \<in> set (events d)"
    using assms(2,4,5,6) by simp
  from same_id_same_event [OF dist this assms(3,7)] show ?thesis by simp
qed

lemma locked_is_not_unlocked_selection:
  assumes inv: "grid_invariant s"
      and x: "daysData s (selectedEventDate s) = Some d" "x \<in> set (events d)" "locked x"
      and sel: "selectedEvent s = Some ev" "\<not> locked ev"
  shows "ev_id x \<noteq> ev_id ev"
proof
  assume same: "ev_id x = ev_id ev"
  have dist: "distinct (map ev_id (events d))"
    using inv x(1) by (simp add: grid_invariant_def)
  have "ev \<in> set (events d)"
    using inv sel(1) x(1) by (auto simp: grid_invariant_def)
  from same_id_same_event [OF dist x(2) this same] have "x = ev" .
  with x(3) sel(2) show False by simp
qed

lemma details_handleToggleLockClick:
  assumes inv: "grid_invariant s"
      and x: "daysData s date = Some d" "x \<in> set (events d)" "locked x"
      and x': "daysData (handleToggleLockClick ed s) date = Some d'" "x' \<in> set (events d')"
              "ev_id x' = ev_id x"
  shows "details x' = details x"
proof (cases "selectedEvent s")
  case None
  then have "daysData (handleToggleLockClick ed s) = daysData s"
    by (simp add: handleToggleLockClick_def)
  from details_same_days [OF inv x(1,2) this x'] show ?thesis .
next
  case (Some ev)
  show ?thesis
  proof (cases "locked ev \<or> trim ed = []")
    case True
    with Some have "daysData (handleToggleLockClick ed s) = daysData s"
      by (auto simp: handleToggleLockClick_def Let_def)
    from details_same_days [OF inv x(1,2) this x'] show ?thesis .
  next
    case False
    let ?s1 = "handleUpdateEvent (ev_id ev) (trim ed) s"
    have click: "handleToggleLockClick ed s = handleToggleLock (ev_id ev) ?s1"
      using Some False by (simp add: handleToggleLockClick_def Let_def)
    have other: "date = selectedEventDate s \<Longrightarrow> ev_id x \<noteq> ev_id ev"
      using locked_is_not_unlocked_selection [OF inv _ x(2,3) Some] False x(1) by simp
    have inv1: "grid_invariant ?s1"
      by (rule inv_handleUpdateEvent [OF inv])
    have x1: "\<exists>d1. daysData ?s1 date = Some d1 \<and> x \<in> set (events d1)"
    proof (cases "date = selectedEventDate s")
      case True
      with other have "(if ev_id x = ev_id ev then x\<lparr>details := trim ed\<rparr> else x) = x"
        by simp
      then have "x \<in> (\<lambda>y. if ev_id y = ev_id ev then y\<lparr>details := trim ed\<rparr> else y) ` set (events d)"
        using x(2) by (rule_tac image_eqI [where x = x]) simp_all
      then show ?thesis
        using True x(1) by (simp add: daysData_handleUpdateEvent)
    next
      case False
      then show ?thesis
        using x(1,2) by (simp add: daysData_handleUpdateEvent split: option.split)
    qed
    then obtain d1 where d1: "daysData ?s1 date = Some d1" "x \<in> set (events d1)"
      by blast
    show ?thesis
      using details_handleToggleLock [OF inv1 d1, of "ev_id ev" d' x'] x' click
      by simp
  qed
qed

lemma fresh_state_reachable: "reachable fresh_state"
proof -
  let ?s1 = "handleAddEventClick ''2026-03-06'' initialState"
  let ?s2 = "addEventModal_handleSave ''Jumuah Appeal'' ''e1'' 0 ?s1"
  let ?s3 = "handleEventClick ''2026-03-06'' fresh_event ?s2"
  have t: "trim ''Jumuah Appeal'' = ''Jumuah Appeal''"
    by code_simp
  have r1: "reachable ?s1"
    by (rule reachable.step [OF reachable.initial ui_step.click_add_event])
  have "ui_step ?s1 ?s2"
    by (rule ui_step.save_new_event) (simp_all add: handleAddEventClick_def initialState_def)
  with r1 have r2: "reachable ?s2"
    by (rule reachable.step)
  have s2: "?s2 =
      \<lparr>daysData = [''2026-03-06'' \<mapsto> \<lparr>events = [fresh_event]\<rparr>], selectedEvent = None,
       selectedEventDate = [], addEventDate = [], showUnlockConfirm = False\<rparr>"
    by (simp add: addEventModal_handleSave_def t handleSaveNewEvent_def Let_def
        handleAddEventClick_def initialState_def createEmptyEvent_def createEmptyDayState_def
        fresh_event_def)
  have "ui_step ?s2 ?s3"
    by (rule ui_step.click_event [where d = "\<lparr>events = [fresh_event]\<rparr>"]) (simp_all add: s2)
  with r2 have "reachable ?s3"
    by (rule reachable.step)
  moreover have "?s3 = fresh_state"
    unfolding s2 by (simp add: handleEventClick_def fresh_state_def)
  ultimately show ?thesis
    by simp
qed

text \<open>
  C1, as the code has it. \<open>handleUpdateEvent\<close> never reads \<open>locked\<close>: applied to the
  locked event of a reachable state it replaces the details.
\<close>

theorem update_locked_counterexample:
  "reachable fresh_state \<and>
   daysData fresh_state ''2026-03-06'' = Some \<lparr>events = [fresh_event]\<rparr> \<and>
   locked fresh_event \<and> details fresh_event = ''Jumuah Appeal'' \<and>
   daysData (handleUpdateEvent ''e1'' ''Changed'' fresh_state) ''2026-03-06'' =
     Some \<lparr>events = [fresh_event\<lparr>details := ''Changed''\<rparr>]\<rparr>"
proof -
  have "daysData fresh_state ''2026-03-06'' = Some \<lparr>events = [fresh_event]\<rparr>"
    by (simp add: fresh_state_def)
  moreover have "locked fresh_event \<and> details fresh_event = ''Jumuah Appeal''"
    by (simp add: fresh_event_def)
  moreover have "daysData (handleUpdateEvent ''e1'' ''Changed'' fresh_state) ''2026-03-06'' =
     Some \<lparr>events = [fresh_event\<lparr>details := ''Changed''\<rparr>]\<rparr>"
    by (simp add: handleUpdateEvent_def Let_def fresh_state_def fresh_event_def)
  ultimately show ?thesis
    using fresh_state_reachable by blast
qed

text \<open>
  C1 (amended). The lock is kept by the caller. The only caller of update-event-details
  is the lock button of the detail modal, \<open>handleToggleLockClick\<close>, which dispatches it
  when the event it shows is unlocked, and the event it shows is the stored one. So in
  every reachable state, whatever the user does next, an event that is locked keeps its
  details: the event stored afterwards under the same day and id has the same details.
\<close>

theorem locked_details_never_mutated:
  assumes "reachable s" "ui_step s s'"
      and "daysData s date = Some d" "x \<in> set (events d)" "locked x"
      and "daysData s' date = Some d'" "x' \<in> set (events d')" "ev_id x' = ev_id x"
  shows "details x' = details x"
proof -
  have inv: "grid_invariant s"
    by (rule reachable_invariant [OF assms(1)])
  note x = assms(3,4)
  from assms(2) show ?thesis
  proof (cases rule: ui_step.cases)
    case (click_event date0 d0 ev)
    then have "daysData s' = daysData s" by (simp add: handleEventClick_def)
    from details_same_days [OF inv x this assms(6-8)] show ?thesis .
  next
    case (click_add_event date0)
    then have "daysData s' = daysData s" by (simp add: handleAddEventClick_def)
    from details_same_days [OF inv x this assms(6-8)] show ?thesis .
  next
    case (save_new_event newId dets now)
    show ?thesis
    proof (cases "trim dets = []")
      case True
      with save_new_event have "daysData s' = daysData s"
        by (simp add: addEventModal_handleSave_def)
      from details_same_days [OF inv x this assms(6-8)] show ?thesis .
    next
      case False
      with save_new_event assms(6)
      have "daysData (handleSaveNewEvent (trim dets) newId now s) date = Some d'"
        by (simp add: addEventModal_handleSave_def Let_def)
      from details_handleSaveNewEvent [OF inv x save_new_event(3) this assms(7,8)]
      show ?thesis .
    qed
  next
    case (lock_button editedDetails)
    with assms(6) have "daysData (handleToggleLockClick editedDetails s) date = Some d'"
      by simp
    from details_handleToggleLockClick [OF inv x assms(5) this assms(7,8)] show ?thesis .
  next
    case confirm_unlock
    show ?thesis
    proof (cases "selectedEvent s")
      case None
      with confirm_unlock have "daysData s' = daysData s"
        by (simp add: unlockDialog_handleConfirm_def handleConfirmUnlock_def)
      from details_same_days [OF inv x this assms(6-8)] show ?thesis .
    next
      case (Some ev)
      with confirm_unlock assms(6) have "daysData (handleToggleLock (ev_id ev) s) date = Some d'"
        by (simp add: unlockDialog_handleConfirm_def handleConfirmUnlock_def)
      from details_handleToggleLock [OF inv x this assms(7,8)] show ?thesis .
    qed
  next
    case cancel_unlock
    then have "daysData s' = daysData s" by simp
    from details_same_days [OF inv x this assms(6-8)] show ?thesis .
  next
    case confirm_delete
    with assms(6) have "daysData (handleDeleteEvent s) date = Some d'" by simp
    from details_handleDeleteEvent [OF inv x this assms(7,8)] show ?thesis .
  next
    case (add_volunteer ev roleId volunteer)
    from details_handleAddVolunteer [OF inv x add_volunteer(2) assms(6-8)] show ?thesis .
  next
    case (remove_volunteer ev roleId volunteerId)
    from details_handleRemoveVolunteer [OF inv x remove_volunteer(2) assms(6-8)] show ?thesis .
  next
    case close_modal
    then have "daysData s' = daysData s" by (simp add: onClose_def)
    from details_same_days [OF inv x this assms(6-8)] show ?thesis .
  qed
qed

lemma fresh_state_add_ali: "handleAddVolunteer ''e1'' ''role-4'' ali fresh_state = Inr signed_state"
  by (simp add: handleAddVolunteer_def Let_def fresh_state_def fresh_event_def signed_state_def
      signed_event_def volunteersOf_def getProperty_def objectPrototypeProperty_def
      spreadArray_def)


theorem locked_details_never_mutated_witness:
  "reachable fresh_state \<and> ui_step fresh_state signed_state \<and> locked fresh_event \<and>
   daysData fresh_state ''2026-03-06'' = Some \<lparr>events = [fresh_event]\<rparr> \<and>
   daysData signed_state ''2026-03-06'' = Some \<lparr>events = [signed_event]\<rparr> \<and>
   ev_id signed_event = ev_id fresh_event \<and> signed_event \<noteq> fresh_event \<and>
   details signed_event = details fresh_event"
proof -
  have sel: "selectedEvent fresh_state = Some fresh_event"
    by (simp add: fresh_state_def)
  have "handleAddVolunteer (ev_id fresh_event) ''role-4'' ali fresh_state = Inr signed_state"
    using fresh_state_add_ali by (simp add: fresh_event_def)
  with sel have st: "ui_step fresh_state signed_state"
    by (rule ui_step.add_volunteer)
  have day: "daysData fresh_state ''2026-03-06'' = Some \<lparr>events = [fresh_event]\<rparr>"
    by (simp add: fresh_state_def)
  have x: "fresh_event \<in> set (events \<lparr>events = [fresh_event]\<rparr>)"
    by simp
  have l: "locked fresh_event"
    by (simp add: fresh_event_def)
  have day': "daysData signed_state ''2026-03-06'' = Some \<lparr>events = [signed_event]\<rparr>"
    by (simp add: signed_state_def)
  have x': "signed_event \<in> set (events \<lparr>events = [signed_event]\<rparr>)"
    by simp
  have ids: "ev_id signed_event = ev_id fresh_event"
    by (simp add: signed_event_def)
  have "roles signed_event ''role-4'' \<noteq> roles fresh_event ''role-4''"
    by (simp add: signed_event_def fresh_event_def)
  then have ne: "signed_event \<noteq> fresh_event"
    by auto
  from locked_details_never_mutated [OF fresh_state_reachable st day x l day' x' ids]
  show ?thesis
    using fresh_state_reachable st l day day' ids ne by blast
qed


section \<open>Removing a volunteer\<close>










lemma handleRemoveVolunteer_inherited_key:
  "handleRemoveVolunteer ''e1'' ''constructor'' ''v9'' fresh_state = Inl TypeError"
  by (simp add: handleRemoveVolunteer_def fresh_state_def fresh_event_def volunteersOf_def
      getProperty_def objectPrototypeProperty_def filterArray_def)




end
